theory Spec2Isabelle
  imports Complex_Main "HOL-Library.Log_Nat"
begin

section \<open>JavaScript values used by the render worker\<close>

text \<open>
  A JavaScript number is a binary64 value. \<open>Num x\<close> is the finite number whose exact
  value is the rational \<open>x\<close>; the three non-finite values are kept apart, so that a zero
  or unreadable source duration is a branch of the model. Negative zero is identified
  with zero.
\<close>

datatype jsnum = Num rat | PosInf | NegInf | NaN

datatype exn = RangeError string | Error string

subsection \<open>Rounding to binary64\<close>

text \<open>
  The exponent of a positive rational: \<open>2 ^ ilog2 x \<le> x < 2 ^ (ilog2 x + 1)\<close>.
\<close>

definition ilog2 :: "rat \<Rightarrow> int" where
  "ilog2 x = (if 1 \<le> x then bitlen \<lfloor>x\<rfloor> - 1 else - bitlen (\<lceil>1 / x\<rceil> - 1))"

text \<open>The nearest integer, a tie going to the even one.\<close>

definition round_half_even :: "rat \<Rightarrow> int" where
  "round_half_even z =
     (let f = \<lfloor>z\<rfloor>; r = z - of_int f
      in if r < 1/2 then f else if 1/2 < r then f + 1 else if even f then f else f + 1)"

text \<open>
  The spacing of binary64 numbers around a positive \<open>a\<close>: 53 significant bits, and the
  fixed spacing of the subnormal range below \<open>2 ^ -1022\<close>.
\<close>

definition ulp :: "rat \<Rightarrow> rat" where
  "ulp a = 2 powi (max (ilog2 a) (- 1022) - 52)"

text \<open>The multiple of the spacing nearest to a positive \<open>a\<close> (ties to even).\<close>

definition fl :: "rat \<Rightarrow> rat" where
  "fl a = of_int (round_half_even (a / ulp a)) * ulp a"

text \<open>
  The result of an arithmetic operation whose exact value is \<open>x\<close>: \<open>x\<close> rounded to the
  nearest binary64 number, or an infinity when the rounded value is out of range.
\<close>

definition binary64 :: "rat \<Rightarrow> jsnum" where
  "binary64 x =
     (if x = 0 then Num 0
      else if 2 ^ 1024 \<le> fl \<bar>x\<bar> then (if 0 < x then PosInf else NegInf)
      else Num (if 0 < x then fl \<bar>x\<bar> else - fl \<bar>x\<bar>))"

text \<open>
  \<^verbatim>\<open>parseFloat\<close> of the decimal text that the probe prints for a duration: the
  binary64 number nearest to the decimal value.
\<close>

definition parseFloat :: "rat \<Rightarrow> jsnum" where
  "parseFloat decimal = binary64 decimal"

subsection \<open>Arithmetic\<close>

text \<open>\<^verbatim>\<open>t / d\<close> with a finite numerator.\<close>

fun js_div :: "rat \<Rightarrow> jsnum \<Rightarrow> jsnum" where
  "js_div t (Num d) =
     (if d = 0 then (if 0 < t then PosInf else if t < 0 then NegInf else NaN)
      else binary64 (t / d))"
| "js_div t PosInf = Num 0"
| "js_div t NegInf = Num 0"
| "js_div t NaN = NaN"

text \<open>\<^verbatim>\<open>a * b\<close> with a finite left factor.\<close>

fun js_mul :: "rat \<Rightarrow> jsnum \<Rightarrow> jsnum" where
  "js_mul a (Num b) = binary64 (a * b)"
| "js_mul a PosInf = (if 0 < a then PosInf else if a < 0 then NegInf else NaN)"
| "js_mul a NegInf = (if 0 < a then NegInf else if a < 0 then PosInf else NaN)"
| "js_mul a NaN = NaN"

text \<open>\<^verbatim>\<open>Math.round\<close>: the nearest integer, a tie going upwards.\<close>

fun js_round :: "jsnum \<Rightarrow> jsnum" where
  "js_round (Num x) = Num (of_int \<lfloor>x + 1/2\<rfloor>)"
| "js_round PosInf = PosInf"
| "js_round NegInf = NegInf"
| "js_round NaN = NaN"

text \<open>\<^verbatim>\<open>x % 2 === 0\<close>: true exactly for an even integer.\<close>

fun js_even :: "jsnum \<Rightarrow> bool" where
  "js_even (Num x) = (x = of_int \<lfloor>x\<rfloor> \<and> even \<lfloor>x\<rfloor>)"
| "js_even PosInf = False"
| "js_even NegInf = False"
| "js_even NaN = False"

fun js_ceil :: "jsnum \<Rightarrow> jsnum" where
  "js_ceil (Num x) = Num (of_int \<lceil>x\<rceil>)"
| "js_ceil PosInf = PosInf"
| "js_ceil NegInf = NegInf"
| "js_ceil NaN = NaN"

text \<open>\<^verbatim>\<open>x > c\<close> for a finite constant: every comparison with NaN is false.\<close>

fun js_gt :: "jsnum \<Rightarrow> rat \<Rightarrow> bool" where
  "js_gt (Num x) c = (c < x)"
| "js_gt PosInf c = True"
| "js_gt NegInf c = False"
| "js_gt NaN c = False"

text \<open>\<^verbatim>\<open>x - 1\<close>.\<close>

fun js_pred :: "jsnum \<Rightarrow> jsnum" where
  "js_pred (Num x) = binary64 (x - 1)"
| "js_pred PosInf = PosInf"
| "js_pred NegInf = NegInf"
| "js_pred NaN = NaN"

text \<open>
  \<^verbatim>\<open>Array(n)\<close>: the length of the new array, or the RangeError that JavaScript
  raises when \<open>n\<close> is not an integer in \<open>[0, 2^32 - 1]\<close>.
\<close>

fun js_Array :: "jsnum \<Rightarrow> exn + nat" where
  "js_Array (Num x) =
     (if x = of_int \<lfloor>x\<rfloor> \<and> 0 \<le> x \<and> x < 4294967296 then Inr (nat \<lfloor>x\<rfloor>)
      else Inl (RangeError ''Invalid array length''))"
| "js_Array PosInf = Inl (RangeError ''Invalid array length'')"
| "js_Array NegInf = Inl (RangeError ''Invalid array length'')"
| "js_Array NaN = Inl (RangeError ''Invalid array length'')"

section \<open>Compression settings and probed geometry\<close>

text \<open>
  The settings object held by a processor. \<open>maxHeight = None\<close> is JavaScript's
  \<^verbatim>\<open>null\<close> ("keep original"); \<open>bframes\<close> and \<open>gopSize\<close> are \<open>None\<close> when
  the key is absent. The field \<^verbatim>\<open>twoPass\<close> is read by no method and is left out.
\<close>

record compression_settings =
  crf :: int
  preset :: string
  maxHeight :: "int option"
  audioBitrate :: string
  profile :: string
  level :: string
  bframes :: "int option"
  gopSize :: "int option"

text \<open>The object resolved by \<^verbatim>\<open>getVideoInfo\<close>; only the geometry is used.\<close>

record video_info =
  width :: int
  height :: int

section \<open>Transcoder invocations\<close>

text \<open>
  One token of an option list handed to the command builder. Template strings keep the
  number they interpolate: \<open>NumStr n\<close> is \<^verbatim>\<open>n.toString()\<close>, \<open>StreamLoop n\<close> is
  \<^verbatim>\<open>`-stream_loop ${n}`\<close>, \<open>ConcatFilter n\<close> is
  \<^verbatim>\<open>`concat=n=${n}:v=1:a=0[outv]`\<close> and \<open>ScaleFilter w h\<close> is
  \<^verbatim>\<open>`scale=${w}:${h}`\<close>.
\<close>

datatype arg =
    Lit string
  | NumStr jsnum
  | IntStr int
  | StreamLoop jsnum
  | ConcatFilter jsnum
  | ScaleFilter jsnum int

text \<open>The state accumulated by the fluent command builder before \<^verbatim>\<open>run()\<close>.\<close>

record ffmpeg_command =
  inputs :: "string list"
  inputOptions :: "arg list"
  complexFilter :: "arg list"
  outputOptions :: "arg list"
  output_path :: string

definition ffmpeg :: "string list \<Rightarrow> ffmpeg_command" where
  "ffmpeg ins = \<lparr>inputs = ins, inputOptions = [], complexFilter = [],
                 outputOptions = [], output_path = []\<rparr>"

section \<open>Scale filter (getVideoScaleFilter)\<close>

text \<open>
  \<^verbatim>\<open>!maxHeight\<close> holds for \<^verbatim>\<open>null\<close> and for \<open>0\<close>; \<^verbatim>\<open>!videoInfo.height\<close>
  holds for \<open>0\<close>. The quotient and the product are rounded to binary64 like every
  arithmetic result. The width, the height and the maximum height are integers that a
  JavaScript number holds exactly. The result is the pair of numbers inside the filter
  string.
\<close>

definition getVideoScaleFilter ::
  "compression_settings \<Rightarrow> video_info \<Rightarrow> (jsnum \<times> int) option" where
  "getVideoScaleFilter cs videoInfo =
     (case maxHeight cs of
        None \<Rightarrow> None
      | Some mh \<Rightarrow>
          if mh = 0 \<or> height videoInfo = 0 then None
          else if height videoInfo > mh then
            (let aspectRatio = js_div (of_int (width videoInfo)) (Num (of_int (height videoInfo)));
                 newWidth = js_round (js_mul (of_int mh) aspectRatio);
                 evenWidth = (if js_even newWidth then newWidth else js_pred newWidth);
                 evenHeight = (if mh mod 2 = 0 then mh else mh - 1)
             in Some (evenWidth, evenHeight))
          else None)"

section \<open>Loop planning (loopVideo, loopAudio)\<close>

text \<open>
  \<^verbatim>\<open>Math.ceil(targetDuration / inputDuration)\<close>, the expression of both loops. The
  product \<^verbatim>\<open>durationMinutes * 60\<close> is exact for the whole minutes that the queue's
  integer column holds.
\<close>

definition targetDuration :: "rat \<Rightarrow> rat" where
  "targetDuration durationMinutes = durationMinutes * 60"

definition loops :: "rat \<Rightarrow> jsnum \<Rightarrow> jsnum" where
  "loops durationMinutes inputDuration =
     js_ceil (js_div (targetDuration durationMinutes) inputDuration)"

text \<open>\<^verbatim>\<open>if (x) outputOptions.push(flag, x.toString())\<close> for an optional number.\<close>

definition push_if :: "string \<Rightarrow> int option \<Rightarrow> arg list" where
  "push_if flag x =
     (case x of None \<Rightarrow> [] | Some n \<Rightarrow> if n = 0 then [] else [Lit flag, IntStr n])"

text \<open>
  \<open>loopVideo\<close> up to the call of \<^verbatim>\<open>run()\<close>: the two probes are awaited first
  (either may reject), then the command is built. The output path is the generated
  unique name. \<^verbatim>\<open>VideoProcessor.loopVideo\<close> has the same text.
\<close>

definition loopVideo ::
  "compression_settings \<Rightarrow> string \<Rightarrow> rat \<Rightarrow> exn + jsnum \<Rightarrow> exn + video_info \<Rightarrow> string
     \<Rightarrow> exn + ffmpeg_command" where
  "loopVideo cs inputPath durationMinutes probedDuration probedInfo outputPath =
     (case probedDuration of
        Inl e \<Rightarrow> Inl e
      | Inr inputDuration \<Rightarrow>
     (case probedInfo of
        Inl e \<Rightarrow> Inl e
      | Inr videoInfo \<Rightarrow>
          (let n = loops durationMinutes inputDuration;
               built =
                 (if js_gt n 10
                  then Inr ((ffmpeg [inputPath])\<lparr>inputOptions := [StreamLoop (js_pred n)]\<rparr>)
                  else (case js_Array n of
                          Inl e \<Rightarrow> Inl e
                        | Inr k \<Rightarrow>
                            Inr ((ffmpeg (replicate k inputPath))
                                   \<lparr>complexFilter := [ConcatFilter n],
                                    outputOptions := [Lit ''-map [outv]'']\<rparr>)))
           in case built of
                Inl e \<Rightarrow> Inl e
              | Inr command \<Rightarrow>
                  Inr (command
                    \<lparr>outputOptions := outputOptions command @
                       [Lit ''-c:v libx264'',
                        Lit ''-preset'', Lit (preset cs),
                        Lit ''-crf'', IntStr (crf cs),
                        Lit ''-profile:v'', Lit (profile cs),
                        Lit ''-level'', Lit (level cs),
                        Lit ''-pix_fmt yuv420p'',
                        Lit ''-movflags +faststart'',
                        Lit ''-threads 0'',
                        Lit ''-t'', NumStr (Num (targetDuration durationMinutes))]
                       @ push_if ''-bf'' (bframes cs)
                       @ push_if ''-g'' (gopSize cs)
                       @ (case getVideoScaleFilter cs videoInfo of
                            None \<Rightarrow> []
                          | Some (w, h) \<Rightarrow> [Lit ''-vf'', ScaleFilter w h]),
                     output_path := outputPath\<rparr>))))"

text \<open>\<open>loopAudio\<close> up to the call of \<^verbatim>\<open>run()\<close>.\<close>

definition loopAudio :: "string \<Rightarrow> rat \<Rightarrow> exn + jsnum \<Rightarrow> string \<Rightarrow> exn + ffmpeg_command" where
  "loopAudio inputPath durationMinutes probedDuration outputPath =
     (case probedDuration of
        Inl e \<Rightarrow> Inl e
      | Inr inputDuration \<Rightarrow>
          (let n = loops durationMinutes inputDuration
           in Inr ((ffmpeg [inputPath])
                \<lparr>inputOptions := [StreamLoop (js_pred n)],
                 outputOptions :=
                   [Lit ''-c:a pcm_s16le'',
                    Lit ''-ar 48000'',
                    Lit ''-ac 2'',
                    Lit ''-t'', NumStr (Num (targetDuration durationMinutes))],
                 output_path := outputPath\<rparr>)))"

text \<open>
  The looping strategy a built command uses: native stream repetition of one input, or
  an explicit N-way concatenation of N inputs.
\<close>

datatype strategy = stream_repeat | concatenate

fun is_StreamLoop :: "arg \<Rightarrow> bool" where
  "is_StreamLoop (StreamLoop n) = True"
| "is_StreamLoop a = False"

fun is_ConcatFilter :: "arg \<Rightarrow> bool" where
  "is_ConcatFilter (ConcatFilter n) = True"
| "is_ConcatFilter a = False"

fun is_ScaleFilter :: "arg \<Rightarrow> bool" where
  "is_ScaleFilter (ScaleFilter w h) = True"
| "is_ScaleFilter a = False"

definition strategy_of :: "ffmpeg_command \<Rightarrow> strategy option" where
  "strategy_of c =
     (if list_ex is_ConcatFilter (complexFilter c) then Some concatenate
      else if list_ex is_StreamLoop (inputOptions c) then Some stream_repeat
      else None)"

text \<open>An option list holds the flag immediately followed by the value.\<close>

fun has_option :: "string \<Rightarrow> arg \<Rightarrow> arg list \<Rightarrow> bool" where
  "has_option flag v (a # b # rest) =
     ((a = Lit flag \<and> b = v) \<or> has_option flag v (b # rest))"
| "has_option flag v rest = False"

section \<open>Local files\<close>

text \<open>
  The scratch filesystem: the paths that exist, and the paths whose removal is refused
  by the operating system (a permission or busy error). Paths are atomic names.
  A stateful operation returns what it threw (\<open>Inl\<close>) or returned (\<open>Inr\<close>), and the
  filesystem it leaves.
\<close>

record fs_state =
  files :: "string set"
  locked :: "string set"

definition pathExists :: "fs_state \<Rightarrow> string \<Rightarrow> bool" where
  "pathExists fs p = (p \<in> files fs)"

definition fs_remove :: "string \<Rightarrow> fs_state \<Rightarrow> (exn + unit) \<times> fs_state" where
  "fs_remove p fs =
     (if p \<in> files fs \<and> p \<in> locked fs then (Inl (Error ''EPERM''), fs)
      else (Inr (), fs\<lparr>files := files fs - {p}\<rparr>))"

text \<open>A path variable is \<^verbatim>\<open>null\<close> (\<open>None\<close>) or a string; the empty string is falsy.\<close>

definition truthy :: "string option \<Rightarrow> bool" where
  "truthy p = (case p of None \<Rightarrow> False | Some s \<Rightarrow> s \<noteq> [])"

text \<open>
  \<open>cleanup\<close> of \<^verbatim>\<open>MediaProcessor\<close> and of the media \<^verbatim>\<open>FileManager\<close> (same text):
  the \<^verbatim>\<open>for\<close> loop runs inside one \<^verbatim>\<open>try\<close>, so the first removal that throws ends
  the loop; the \<^verbatim>\<open>catch\<close> logs and returns.
\<close>

fun cleanup_loop :: "string option list \<Rightarrow> fs_state \<Rightarrow> (exn + unit) \<times> fs_state" where
  "cleanup_loop [] fs = (Inr (), fs)"
| "cleanup_loop (filePath # rest) fs =
     (case filePath of
        None \<Rightarrow> cleanup_loop rest fs
      | Some p \<Rightarrow>
          if p \<noteq> [] \<and> pathExists fs p then
            (case fs_remove p fs of
               (Inl e, fs') \<Rightarrow> (Inl e, fs')
             | (Inr u, fs') \<Rightarrow> cleanup_loop rest fs')
          else cleanup_loop rest fs)"

definition cleanup :: "string option list \<Rightarrow> fs_state \<Rightarrow> (exn + unit) \<times> fs_state" where
  "cleanup filePaths fs =
     (case cleanup_loop filePaths fs of
        (Inl e, fs') \<Rightarrow> (Inr (), fs')
      | (Inr u, fs') \<Rightarrow> (Inr (), fs'))"

section \<open>Running the transcoder\<close>

text \<open>
  What the external process does with a command is not decided by this program: it ends
  (the output file exists and the promise resolves with its path) or it errors (the
  promise rejects; \<open>Errored True\<close> leaves a partial output file behind).
\<close>

datatype outcome = Ended | Errored bool

definition run :: "outcome \<Rightarrow> ffmpeg_command \<Rightarrow> fs_state \<Rightarrow> (exn + string) \<times> fs_state" where
  "run oc command fs =
     (case oc of
        Ended \<Rightarrow> (Inr (output_path command),
                   fs\<lparr>files := insert (output_path command) (files fs)\<rparr>)
      | Errored partial \<Rightarrow>
          (Inl (Error ''ffmpeg exited with an error''),
           if partial then fs\<lparr>files := insert (output_path command) (files fs)\<rparr> else fs))"

definition run_built ::
  "outcome \<Rightarrow> exn + ffmpeg_command \<Rightarrow> fs_state \<Rightarrow> (exn + string) \<times> fs_state" where
  "run_built oc built fs =
     (case built of Inl e \<Rightarrow> (Inl e, fs) | Inr command \<Rightarrow> run oc command fs)"

definition mergeVideoAudio ::
  "compression_settings \<Rightarrow> string \<Rightarrow> string \<Rightarrow> string \<Rightarrow> ffmpeg_command" where
  "mergeVideoAudio cs videoPath audioPath outputPath =
     (ffmpeg [videoPath, audioPath])
       \<lparr>outputOptions :=
          [Lit ''-c:v copy'',
           Lit ''-c:a aac'',
           Lit ''-b:a'', Lit (audioBitrate cs),
           Lit ''-movflags +faststart'',
           Lit ''-shortest''],
        output_path := outputPath\<rparr>"

section \<open>The render pipeline (processMedia)\<close>

text \<open>
  Everything one render takes from outside: the probe results, how each of the three
  transcoder runs ends, which of the two loops rejects first when both do, and the
  generated file names.
\<close>

record media_env =
  videoDuration :: "exn + jsnum"
  videoInfo :: "exn + video_info"
  audioDuration :: "exn + jsnum"
  videoRun :: outcome
  audioRun :: outcome
  mergeRun :: outcome
  audioRejectsFirst :: bool
  loopedVideoName :: string
  loopedAudioName :: string
  mergedName :: string

text \<open>
  \<^verbatim>\<open>Promise.all\<close> of the two loops: both are started; it resolves with both paths, or
  rejects with the rejection that came first.
\<close>

definition Promise_all ::
  "bool \<Rightarrow> exn + string \<Rightarrow> exn + string \<Rightarrow> exn + string \<times> string" where
  "Promise_all audioFirst rv ra =
     (case rv of
        Inl ev \<Rightarrow> (case ra of Inl ea \<Rightarrow> Inl (if audioFirst then ea else ev) | Inr a \<Rightarrow> Inl ev)
      | Inr v \<Rightarrow> (case ra of Inl ea \<Rightarrow> Inl ea | Inr a \<Rightarrow> Inr (v, a)))"

text \<open>
  The \<^verbatim>\<open>catch\<close> block of \<open>processMedia\<close>, with the values the two local variables
  \<^verbatim>\<open>loopedVideoPath\<close> and \<^verbatim>\<open>loopedAudioPath\<close> hold when it is entered.
\<close>

definition processMedia_catch ::
  "string option \<Rightarrow> string option \<Rightarrow> exn \<Rightarrow> fs_state \<Rightarrow> (exn + string) \<times> fs_state" where
  "processMedia_catch loopedVideoPath loopedAudioPath e fs =
     (if truthy loopedVideoPath \<or> truthy loopedAudioPath
      then (case cleanup (filter truthy [loopedVideoPath, loopedAudioPath]) fs of
              (Inl e', fs') \<Rightarrow> (Inl e', fs')
            | (Inr u, fs') \<Rightarrow> (Inl e, fs'))
      else (Inl e, fs))"

text \<open>
  \<open>processMedia\<close> of \<^verbatim>\<open>MediaProcessor\<close>; \<^verbatim>\<open>MediaOrchestrator.processMedia\<close> has the
  same text. The two local variables are \<^verbatim>\<open>null\<close> until the destructuring assignment
  of the resolved \<^verbatim>\<open>Promise.all\<close>; when it rejects they are still \<^verbatim>\<open>null\<close> in the
  \<^verbatim>\<open>catch\<close> block. Both loop runs are taken to their end before the result is read.
\<close>

definition processMedia ::
  "compression_settings \<Rightarrow> media_env \<Rightarrow> string \<Rightarrow> string \<Rightarrow> rat \<Rightarrow> fs_state
     \<Rightarrow> (exn + string) \<times> fs_state" where
  "processMedia cs env videoPath audioPath durationMinutes fs =
     (case run_built (videoRun env)
             (loopVideo cs videoPath durationMinutes (videoDuration env) (videoInfo env)
                (loopedVideoName env)) fs of
        (rv, fs1) \<Rightarrow>
     (case run_built (audioRun env)
             (loopAudio audioPath durationMinutes (audioDuration env) (loopedAudioName env))
             fs1 of
        (ra, fs2) \<Rightarrow>
     (case Promise_all (audioRejectsFirst env) rv ra of
        Inl e \<Rightarrow> processMedia_catch None None e fs2
      | Inr (loopedVideoPath, loopedAudioPath) \<Rightarrow>
          (case run (mergeRun env)
                  (mergeVideoAudio cs loopedVideoPath loopedAudioPath (mergedName env)) fs2 of
             (Inl e, fs3) \<Rightarrow>
               processMedia_catch (Some loopedVideoPath) (Some loopedAudioPath) e fs3
           | (Inr finalOutputPath, fs3) \<Rightarrow>
               (case cleanup [Some loopedVideoPath, Some loopedAudioPath] fs3 of
                  (Inl e, fs4) \<Rightarrow>
                    processMedia_catch (Some loopedVideoPath) (Some loopedAudioPath) e fs4
                | (Inr u, fs4) \<Rightarrow> (Inr finalOutputPath, fs4))))))"

section \<open>The job queue (SupabaseJobManager)\<close>

datatype job_status = waiting_render | rendering | rendered | failed

text \<open>A row of the jobs table, with the columns the worker reads or writes.\<close>

record job =
  job_id :: int
  status :: job_status
  final_video_url :: "string option"
  updated_at :: string
  length_minutes :: rat
  channel_id :: int
  input_video_url :: string
  soundtrack_url :: string

text \<open>The object \<^verbatim>\<open>{ data, error }\<close> that an awaited query resolves to.\<close>

record 'a response =
  resp_data :: "'a option"
  resp_error :: "string option"

text \<open>
  The select of \<open>getAndClaimJob\<close>: rows with status \<^verbatim>\<open>waiting_render\<close> and a null
  \<^verbatim>\<open>final_video_url\<close>, ordered by ascending id, limited to one.
\<close>

definition select_waiting :: "job list \<Rightarrow> job list" where
  "select_waiting tbl =
     take 1 (sort_key job_id
       (filter (\<lambda>j. status j = waiting_render \<and> final_video_url j = None) tbl))"

text \<open>
  The update of \<open>getAndClaimJob\<close>: the store evaluates both \<^verbatim>\<open>eq\<close> filters and
  writes in one statement: \<open>matched\<close> are the rows that pass the filters at write time.
  The result is the table after the write and the rows written.
\<close>

definition claim_row :: "string \<Rightarrow> job \<Rightarrow> job" where
  "claim_row now j = j\<lparr>status := rendering, updated_at := now\<rparr>"

definition matched :: "int \<Rightarrow> job list \<Rightarrow> job list" where
  "matched jid tbl = filter (\<lambda>j. job_id j = jid \<and> status j = waiting_render) tbl"

definition update_claim :: "int \<Rightarrow> string \<Rightarrow> job list \<Rightarrow> job list \<times> job list" where
  "update_claim jid now tbl =
     (map (\<lambda>j. if job_id j = jid \<and> status j = waiting_render then claim_row now j else j) tbl,
      map (claim_row now) (matched jid tbl))"

text \<open>\<^verbatim>\<open>.single()\<close>: exactly one row, or an error object and no data.\<close>

definition single :: "'a list \<Rightarrow> 'a response" where
  "single rows =
     (case rows of
        [r] \<Rightarrow> \<lparr>resp_data = Some r, resp_error = None\<rparr>
      | _ \<Rightarrow> \<lparr>resp_data = None, resp_error = Some ''PGRST116''\<rparr>)"

text \<open>
  How a request to the store can go wrong, besides its answer: it resolves with an error
  object, or the client throws (the request is then taken not to have reached the table).
\<close>

datatype fault = no_fault | returns_error | throws

text \<open>
  What one call of \<open>getAndClaimJob\<close> takes from outside: the fault of each request,
  what the other workers did to the table between the select and the update, and the
  clock.
\<close>

record store_env =
  fetch_fault :: fault
  update_fault :: fault
  others :: "job list \<Rightarrow> job list"
  now :: string

definition fetch_jobs :: "store_env \<Rightarrow> job list \<Rightarrow> exn + job list response" where
  "fetch_jobs env tbl =
     (case fetch_fault env of
        throws \<Rightarrow> Inl (Error ''fetch failed'')
      | returns_error \<Rightarrow> Inr \<lparr>resp_data = None, resp_error = Some ''fetch error''\<rparr>
      | no_fault \<Rightarrow> Inr \<lparr>resp_data = Some (select_waiting tbl), resp_error = None\<rparr>)"

definition update_job ::
  "store_env \<Rightarrow> int \<Rightarrow> job list \<Rightarrow> (exn + job response) \<times> job list" where
  "update_job env jid tbl =
     (case update_fault env of
        throws \<Rightarrow> (Inl (Error ''update failed''), tbl)
      | returns_error \<Rightarrow> (Inr \<lparr>resp_data = None, resp_error = Some ''update error''\<rparr>, tbl)
      | no_fault \<Rightarrow>
          (case update_claim jid (now env) tbl of
             (tbl', rows) \<Rightarrow> (Inr (single rows), tbl')))"

text \<open>The body of the \<^verbatim>\<open>try\<close> block of \<open>getAndClaimJob\<close>.\<close>

definition getAndClaimJob_try ::
  "store_env \<Rightarrow> job list \<Rightarrow> (exn + job option) \<times> job list" where
  "getAndClaimJob_try env tbl =
     (case fetch_jobs env tbl of
        Inl e \<Rightarrow> (Inl e, tbl)
      | Inr fetched \<Rightarrow>
          if resp_error fetched \<noteq> None then (Inr None, tbl)
          else
            (case resp_data fetched of
               None \<Rightarrow> (Inr None, tbl)
             | Some [] \<Rightarrow> (Inr None, tbl)
             | Some (job # rest) \<Rightarrow>
                 (case update_job env (job_id job) (others env tbl) of
                    (Inl e, tbl') \<Rightarrow> (Inl e, tbl')
                  | (Inr updated, tbl') \<Rightarrow>
                      if resp_error updated \<noteq> None then (Inr None, tbl')
                      else
                        (case resp_data updated of
                           None \<Rightarrow> (Inr None, tbl')
                         | Some updatedJob \<Rightarrow> (Inr (Some updatedJob), tbl')))))"

text \<open>\<open>getAndClaimJob\<close>: the \<^verbatim>\<open>catch\<close> block logs and returns \<^verbatim>\<open>null\<close>.\<close>

definition getAndClaimJob :: "store_env \<Rightarrow> job list \<Rightarrow> (exn + job option) \<times> job list" where
  "getAndClaimJob env tbl =
     (case getAndClaimJob_try env tbl of
        (Inl e, tbl') \<Rightarrow> (Inr None, tbl')
      | (Inr r, tbl') \<Rightarrow> (Inr r, tbl'))"

section \<open>Compression presets\<close>

text \<open>The object literal returned by \<open>getCompressionPresets\<close>, key by key.\<close>

definition getCompressionPresets :: "(string \<times> compression_settings) list" where
  "getCompressionPresets =
     [(''youtube-4k'',
         \<lparr>crf = 18, preset = ''slow'', maxHeight = Some 2160, audioBitrate = ''384k'',
          profile = ''high'', level = ''5.1'', bframes = Some 2, gopSize = Some 12\<rparr>),
      (''youtube-2k'',
         \<lparr>crf = 20, preset = ''medium'', maxHeight = Some 1440, audioBitrate = ''192k'',
          profile = ''high'', level = ''5.0'', bframes = Some 2, gopSize = Some 12\<rparr>),
      (''youtube-1080p'',
         \<lparr>crf = 23, preset = ''medium'', maxHeight = Some 1080, audioBitrate = ''128k'',
          profile = ''high'', level = ''4.2'', bframes = Some 2, gopSize = Some 12\<rparr>),
      (''youtube-720p'',
         \<lparr>crf = 26, preset = ''medium'', maxHeight = Some 720, audioBitrate = ''96k'',
          profile = ''high'', level = ''3.1'', bframes = Some 2, gopSize = Some 12\<rparr>),
      (''ultra'',
         \<lparr>crf = 18, preset = ''slow'', maxHeight = None, audioBitrate = ''192k'',
          profile = ''high'', level = ''5.1'', bframes = None, gopSize = None\<rparr>),
      (''high'',
         \<lparr>crf = 21, preset = ''medium'', maxHeight = Some 1440, audioBitrate = ''128k'',
          profile = ''high'', level = ''4.2'', bframes = None, gopSize = None\<rparr>),
      (''medium'',
         \<lparr>crf = 23, preset = ''medium'', maxHeight = Some 1080, audioBitrate = ''96k'',
          profile = ''high'', level = ''4.0'', bframes = None, gopSize = None\<rparr>),
      (''small'',
         \<lparr>crf = 28, preset = ''fast'', maxHeight = Some 720, audioBitrate = ''64k'',
          profile = ''main'', level = ''3.1'', bframes = None, gopSize = None\<rparr>),
      (''tiny'',
         \<lparr>crf = 32, preset = ''fast'', maxHeight = Some 480, audioBitrate = ''48k'',
          profile = ''main'', level = ''3.0'', bframes = None, gopSize = None\<rparr>)]"

text \<open>
  \<^verbatim>\<open>presets[presetName]\<close> reads a property of a plain object: an own key first, then
  the keys every object inherits from \<^verbatim>\<open>Object.prototype\<close>, whose values are functions
  (or, for \<^verbatim>\<open>__proto__\<close>, the prototype object): truthy values without own enumerable
  properties. Any other key reads as \<^verbatim>\<open>undefined\<close>.
\<close>

definition Object_prototype_keys :: "string list" where
  "Object_prototype_keys =
     [''constructor'', ''__proto__'', ''hasOwnProperty'', ''isPrototypeOf'',
      ''propertyIsEnumerable'', ''toLocaleString'', ''toString'', ''valueOf'',
      ''__defineGetter__'', ''__defineSetter__'', ''__lookupGetter__'',
      ''__lookupSetter__'']"

datatype property = Own compression_settings | Inherited | Undefined

definition get_property :: "(string \<times> compression_settings) list \<Rightarrow> string \<Rightarrow> property" where
  "get_property obj k =
     (case map_of obj k of
        Some v \<Rightarrow> Own v
      | None \<Rightarrow> if k \<in> set Object_prototype_keys then Inherited else Undefined)"

text \<open>
  The settings a new \<^verbatim>\<open>MediaProcessor\<close> holds: its defaults, overwritten by the own
  enumerable properties of the object it is given (a preset bundle has all of them but
  \<^verbatim>\<open>bframes\<close> and \<^verbatim>\<open>gopSize\<close>; an inherited member has none).
\<close>

text \<open>\<^verbatim>\<open>Array.prototype.join\<close>.\<close>

fun js_join :: "string \<Rightarrow> string list \<Rightarrow> string" where
  "js_join sep [] = []"
| "js_join sep [x] = x"
| "js_join sep (x # y # rest) = x @ sep @ js_join sep (y # rest)"

text \<open>The message of the error thrown for an unknown preset, by both resolvers.\<close>

definition unknown_preset :: "string \<Rightarrow> exn" where
  "unknown_preset presetName =
     Error (''Unknown compression preset: '' @ presetName @ ''. Available: ''
              @ js_join '', '' (map fst getCompressionPresets))"

definition MediaProcessor_defaults :: compression_settings where
  "MediaProcessor_defaults =
     \<lparr>crf = 23, preset = ''medium'', maxHeight = Some 1080, audioBitrate = ''96k'',
      profile = ''high'', level = ''4.0'', bframes = None, gopSize = None\<rparr>"

definition withPreset :: "string \<Rightarrow> exn + compression_settings" where
  "withPreset presetName =
     (case get_property getCompressionPresets presetName of
        Undefined \<Rightarrow> Inl (unknown_preset presetName)
      | Own settings \<Rightarrow> Inr settings
      | Inherited \<Rightarrow> Inr MediaProcessor_defaults)"

text \<open>
  The settings of the processors wired by \<^verbatim>\<open>MediaProcessorFactory.create\<close>: the
  defaults of \<^verbatim>\<open>VideoProcessor\<close> and \<^verbatim>\<open>MediaMerger\<close>, overwritten in the same way.
\<close>

definition factory_defaults :: compression_settings where
  "factory_defaults =
     \<lparr>crf = 23, preset = ''medium'', maxHeight = Some 1080, audioBitrate = ''96k'',
      profile = ''high'', level = ''4.0'', bframes = Some 2, gopSize = Some 12\<rparr>"

definition create :: "compression_settings \<Rightarrow> compression_settings" where
  "create settings =
     settings\<lparr>bframes := (case bframes settings of None \<Rightarrow> Some 2 | Some b \<Rightarrow> Some b),
              gopSize := (case gopSize settings of None \<Rightarrow> Some 12 | Some g \<Rightarrow> Some g)\<rparr>"

definition createWithPreset :: "string \<Rightarrow> exn + compression_settings" where
  "createWithPreset presetName =
     (case get_property getCompressionPresets presetName of
        Undefined \<Rightarrow> Inl (unknown_preset presetName)
      | Own settings \<Rightarrow> Inr (create settings)
      | Inherited \<Rightarrow> Inr factory_defaults)"

section \<open>Publishing (BackblazeUploader)\<close>

record upload_result =
  success :: bool
  url :: string
  key :: string

text \<open>
  What an upload takes from outside: the object key computed by \<^verbatim>\<open>generateKey\<close>, the
  configured base URL, and whether the multipart upload rejects.
\<close>

record uploader_env =
  object_key :: string
  publicBaseUrl :: string
  upload_done :: "exn option"

definition uploadFile :: "uploader_env \<Rightarrow> string \<Rightarrow> exn + upload_result" where
  "uploadFile up filePath =
     (case upload_done up of
        Some e \<Rightarrow> Inl e
      | None \<Rightarrow> Inr \<lparr>success = True, url = publicBaseUrl up @ ''/'' @ object_key up,
                      key = object_key up\<rparr>)"

definition validateUpload :: "upload_result \<Rightarrow> bool" where
  "validateUpload uploadResult =
     (success uploadResult \<and> url uploadResult \<noteq> [] \<and> key uploadResult \<noteq> [])"

definition cleanupLocalFile :: "string \<Rightarrow> fs_state \<Rightarrow> (exn + unit) \<times> fs_state" where
  "cleanupLocalFile filePath fs =
     (if pathExists fs filePath then
        (case fs_remove filePath fs of
           (Inl e, fs') \<Rightarrow> (Inr (), fs')
         | (Inr u, fs') \<Rightarrow> (Inr (), fs'))
      else (Inr (), fs))"

definition uploadAndCleanup ::
  "uploader_env \<Rightarrow> string \<Rightarrow> bool \<Rightarrow> fs_state \<Rightarrow> (exn + upload_result) \<times> fs_state" where
  "uploadAndCleanup up filePath keepLocal fs =
     (case uploadFile up filePath of
        Inl e \<Rightarrow> (Inl e, fs)
      | Inr uploadResult \<Rightarrow>
          if validateUpload uploadResult then
            (if \<not> keepLocal then
               (case cleanupLocalFile filePath fs of
                  (Inl e, fs') \<Rightarrow> (Inl e, fs')
                | (Inr u, fs') \<Rightarrow> (Inr uploadResult, fs'))
             else (Inr uploadResult, fs))
          else (Inl (Error ''Upload validation failed''), fs))"

section \<open>One job (VideoRenderWorker.renderVideo)\<close>

text \<open>
  \<open>updateJobStatus\<close>: an unconditional write by id, answering whether exactly one row
  came back. When the store is unreachable (\<open>ok\<close> false) nothing is written.
\<close>

definition updateJobStatus ::
  "bool \<Rightarrow> string \<Rightarrow> int \<Rightarrow> job_status \<Rightarrow> string option \<Rightarrow> job list \<Rightarrow> bool \<times> job list" where
  "updateJobStatus ok ts jid st outputUrl tbl =
     (if \<not> ok then (False, tbl)
      else (length (filter (\<lambda>j. job_id j = jid) tbl) = 1,
            map (\<lambda>j. if job_id j = jid
                      then j\<lparr>status := st, updated_at := ts,
                             final_video_url :=
                               (case outputUrl of None \<Rightarrow> final_video_url j | Some u \<Rightarrow> Some u)\<rparr>
                      else j) tbl))"

text \<open>
  \<open>failJob\<close> and \<open>completeJob\<close> catch everything; the workflow notification they may
  send writes nothing to the table.
\<close>

definition failJob :: "bool \<Rightarrow> string \<Rightarrow> int \<Rightarrow> job list \<Rightarrow> bool \<times> job list" where
  "failJob ok ts jid tbl = updateJobStatus ok ts jid failed None tbl"

definition completeJob :: "bool \<Rightarrow> string \<Rightarrow> int \<Rightarrow> string \<Rightarrow> job list \<Rightarrow> bool \<times> job list" where
  "completeJob ok ts jid outputUrl tbl =
     (if \<not> ok \<or> length (filter (\<lambda>j. job_id j = jid) tbl) \<noteq> 1 then (False, tbl)
      else updateJobStatus ok ts jid rendered (Some outputUrl) tbl)"

text \<open>
  \<open>cleanup\<close> of the downloader's base class: each removal has its own \<^verbatim>\<open>try\<close>, so a
  removal that throws does not end the loop.
\<close>

fun downloader_cleanup :: "string option list \<Rightarrow> fs_state \<Rightarrow> fs_state" where
  "downloader_cleanup [] fs = fs"
| "downloader_cleanup (filePath # rest) fs =
     (case filePath of
        None \<Rightarrow> downloader_cleanup rest fs
      | Some p \<Rightarrow>
          if p \<noteq> [] \<and> pathExists fs p
          then downloader_cleanup rest (snd (fs_remove p fs))
          else downloader_cleanup rest fs)"

record world =
  disk :: fs_state
  queue :: "job list"

text \<open>
  What one job takes from outside: the validator's verdict, the downloader (its two
  downloads and its size check), the render environment, the uploader environment,
  whether the store is reachable, and the clock. Progress reports only log, and the
  metadata probe catches its own errors; neither can end the job.
\<close>

record worker_env =
  isValid :: bool
  downloadMediaFiles :: "fs_state \<Rightarrow> (exn + string \<times> string) \<times> fs_state"
  validateFile :: "fs_state \<Rightarrow> string \<Rightarrow> exn + unit"
  settings :: compression_settings
  media :: media_env
  uploader :: uploader_env
  store_ok :: bool
  clock :: string

text \<open>The body of the \<^verbatim>\<open>try\<close> block of \<open>renderVideo\<close>; the result is the upload result.\<close>

definition renderVideo_try ::
  "worker_env \<Rightarrow> job \<Rightarrow> world \<Rightarrow> (exn + upload_result) \<times> world" where
  "renderVideo_try env job w =
     (if \<not> isValid env then (Inl (Error ''Job validation failed''), w)
      else
     (case downloadMediaFiles env (disk w) of
        (Inl e, fs1) \<Rightarrow> (Inl e, w\<lparr>disk := fs1\<rparr>)
      | (Inr (videoPath, audioPath), fs1) \<Rightarrow>
     (case validateFile env fs1 videoPath of
        Inl e \<Rightarrow> (Inl e, w\<lparr>disk := fs1\<rparr>)
      | Inr u \<Rightarrow>
     (case validateFile env fs1 audioPath of
        Inl e \<Rightarrow> (Inl e, w\<lparr>disk := fs1\<rparr>)
      | Inr u \<Rightarrow>
     (case processMedia (settings env) (media env) videoPath audioPath (length_minutes job) fs1 of
        (Inl e, fs2) \<Rightarrow> (Inl e, w\<lparr>disk := fs2\<rparr>)
      | (Inr outputPath, fs2) \<Rightarrow>
     (case uploadAndCleanup (uploader env) outputPath False fs2 of
        (Inl e, fs3) \<Rightarrow> (Inl e, w\<lparr>disk := fs3\<rparr>)
      | (Inr uploadResult, fs3) \<Rightarrow>
          (Inr uploadResult,
           \<lparr>disk = downloader_cleanup [Some videoPath, Some audioPath] fs3,
            queue = snd (completeJob (store_ok env) (clock env) (job_id job)
                         (url uploadResult) (queue w))\<rparr>)))))))"

text \<open>\<open>renderVideo\<close>: the \<^verbatim>\<open>catch\<close> block marks the job failed and throws the error on.\<close>

definition renderVideo :: "worker_env \<Rightarrow> job \<Rightarrow> world \<Rightarrow> (exn + upload_result) \<times> world" where
  "renderVideo env job w =
     (case renderVideo_try env job w of
        (Inl e, w') \<Rightarrow>
          (Inl e, w'\<lparr>queue := snd (failJob (store_ok env) (clock env) (job_id job) (queue w'))\<rparr>)
      | (Inr r, w') \<Rightarrow> (Inr r, w'))"

section \<open>Rounding to binary64\<close>

lemma pow2_le_of_int: "(2::int) ^ k \<le> n \<Longrightarrow> (2::rat) ^ k \<le> of_int n"
  by (metis of_int_le_iff of_int_numeral of_int_power)

lemma of_int_succ_le_pow2: "n < (2::int) ^ k \<Longrightarrow> (of_int n :: rat) + 1 \<le> 2 ^ k"
proof -
  assume "n < (2::int) ^ k"
  then have "n + 1 \<le> 2 ^ k" by simp
  then have "(of_int (n + 1) :: rat) \<le> of_int (2 ^ k)" by (simp only: of_int_le_iff)
  then show ?thesis by simp
qed

lemma bitlen_pos: "1 \<le> n \<Longrightarrow> 1 \<le> bitlen n"
proof (rule ccontr)
  assume n: "1 \<le> n" and "\<not> 1 \<le> bitlen n"
  then have "bitlen n = 0" using bitlen_nonneg [of n] by linarith
  moreover have "n < 2 ^ nat (bitlen n)" using bitlen_bounds [of n] n by simp
  ultimately show False using n by simp
qed

lemma ilog2_bounds:
  assumes "0 < x"
  shows "2 powi (ilog2 x) \<le> x \<and> x < 2 powi (ilog2 x + 1)"
proof (cases "1 \<le> x")
  case True
  let ?n = "\<lfloor>x\<rfloor>"
  have n: "1 \<le> ?n" using True by simp
  then have b: "2 ^ nat (bitlen ?n - 1) \<le> ?n" "?n < 2 ^ nat (bitlen ?n)"
    using bitlen_bounds [of ?n] by simp_all
  have bl: "1 \<le> bitlen ?n" using n by (rule bitlen_pos)
  have e: "ilog2 x = bitlen ?n - 1" using True by (simp add: ilog2_def)
  have "(2::rat) powi (ilog2 x) = 2 ^ nat (bitlen ?n - 1)"
    using bl e by (simp add: power_int_def)
  also have "\<dots> \<le> of_int ?n" using b(1) by (rule pow2_le_of_int)
  also have "\<dots> \<le> x" by simp
  finally have lo: "2 powi (ilog2 x) \<le> x" .
  have "(2::rat) powi (bitlen ?n) = 2 ^ nat (bitlen ?n)"
    using bl by (simp add: power_int_def)
  moreover have "(of_int ?n :: rat) + 1 \<le> 2 ^ nat (bitlen ?n)"
    using b(2) by (rule of_int_succ_le_pow2)
  moreover have "x < of_int ?n + 1" by linarith
  ultimately have hi: "x < 2 powi (ilog2 x + 1)" using e by simp
  from lo hi show ?thesis ..
next
  case False
  let ?y = "1 / x"
  let ?N = "\<lceil>?y\<rceil> - 1"
  have y1: "1 < ?y" using False assms by simp
  then have N1: "1 \<le> ?N" by linarith 
  then have b: "2 ^ nat (bitlen ?N - 1) \<le> ?N" "?N < 2 ^ nat (bitlen ?N)"
    using bitlen_bounds [of ?N] by simp_all
  have bl: "1 \<le> bitlen ?N" using N1 by (rule bitlen_pos)
  have e: "ilog2 x = - bitlen ?N" using False by (simp add: ilog2_def)
  have Ny: "of_int ?N < ?y" "?y \<le> of_int ?N + 1" by linarith+
  have p1: "(2::rat) ^ nat (bitlen ?N - 1) \<le> of_int ?N"
    using b(1) by (rule pow2_le_of_int)
  have p2: "(of_int ?N :: rat) + 1 \<le> 2 ^ nat (bitlen ?N)"
    using b(2) by (rule of_int_succ_le_pow2)
  have y_le: "?y \<le> 2 ^ nat (bitlen ?N)" using Ny(2) p2 by linarith
  have y_gt: "2 ^ nat (bitlen ?N - 1) < ?y" using Ny(1) p1 by linarith
  have lo: "2 powi (ilog2 x) \<le> x"
  proof -
    have "(2::rat) powi (- bitlen ?N) = 1 / 2 ^ nat (bitlen ?N)"
      using bl by (simp add: power_int_def inverse_eq_divide power_one_over)
    moreover have "1 / 2 ^ nat (bitlen ?N) \<le> x"
      using y_le assms by (simp add: field_simps)
    ultimately show ?thesis using e by simp
  qed
  have hi: "x < 2 powi (ilog2 x + 1)"
  proof (cases "bitlen ?N = 1")
    case True
    then show ?thesis using e False by simp
  next
    case F: False
    then have "2 \<le> bitlen ?N" using bl by linarith
    then have "(2::rat) powi (- bitlen ?N + 1) = 1 / 2 ^ nat (bitlen ?N - 1)"
      by (simp add: power_int_def inverse_eq_divide power_one_over nat_diff_distrib)
    moreover have "x < 1 / 2 ^ nat (bitlen ?N - 1)"
      using y_gt assms by (simp add: field_simps)
    ultimately show ?thesis using e by simp
  qed
  from lo hi show ?thesis ..
qed


lemma rhe_cases:
  "round_half_even z = \<lfloor>z\<rfloor> \<and> z - of_int \<lfloor>z\<rfloor> \<le> 1/2
   \<or> round_half_even z = \<lfloor>z\<rfloor> + 1 \<and> 1/2 \<le> z - of_int \<lfloor>z\<rfloor>"
  by (auto simp: round_half_even_def Let_def)

lemma rhe_error: "\<bar>of_int (round_half_even z) - z\<bar> \<le> 1/2"
proof -
  have "of_int \<lfloor>z\<rfloor> \<le> z" "z < of_int \<lfloor>z\<rfloor> + 1" by linarith+
  with rhe_cases [of z] show ?thesis by auto
qed

lemma rhe_le: "z \<le> of_int N \<Longrightarrow> round_half_even z \<le> N"
proof -
  assume a: "z \<le> of_int N"
  have "\<lfloor>z\<rfloor> \<le> N" using a by (simp add: floor_le_iff) 
  show ?thesis
  proof (cases "z = of_int N")
    case True
    then show ?thesis using rhe_cases [of z] by auto
  next
    case False
    with a have "z < of_int N" by simp
    then have "\<lfloor>z\<rfloor> < N" by (simp add: floor_less_iff)
    then show ?thesis using rhe_cases [of z] by auto
  qed
qed

lemma rhe_ge: "of_int N \<le> z \<Longrightarrow> N \<le> round_half_even z"
proof -
  assume "of_int N \<le> z"
  then have "N \<le> \<lfloor>z\<rfloor>" by (simp add: le_floor_iff)
  then show ?thesis using rhe_cases [of z] by auto
qed

lemma ulp_pos: "0 < ulp a"
  by (simp add: ulp_def)

lemma binary64_pos:
  "0 < x \<Longrightarrow> binary64 x = (if 2 ^ 1024 \<le> fl x then PosInf else Num (fl x))"
  by (simp add: binary64_def)

lemma binary64_neg:
  "x < 0 \<Longrightarrow> binary64 x = (if 2 ^ 1024 \<le> fl (- x) then NegInf else Num (- fl (- x)))"
  by (simp add: binary64_def)

lemma ilog2_less:
  assumes "0 < x" "x < 2 ^ n"
  shows "ilog2 x < int n"
proof (rule ccontr)
  assume "\<not> ilog2 x < int n"
  then have "int n \<le> ilog2 x" by simp
  then have "(2::rat) powi (int n) \<le> 2 powi (ilog2 x)"
    by (intro power_int_increasing) simp_all
  with ilog2_bounds [OF assms(1)] have "(2::rat) ^ n \<le> x" by simp
  with assms(2) show False by simp
qed

lemma ulp_small:
  assumes "0 < x" "x < 2 ^ 53"
  obtains j :: nat where "ulp x = 1 / 2 ^ j"
proof -
  have "ilog2 x < 53" using ilog2_less [OF assms] by simp
  then have k: "max (ilog2 x) (- 1022) - 52 \<le> 0" by simp
  let ?k = "max (ilog2 x) (- 1022) - 52"
  have "ulp x = 1 / 2 ^ nat (- ?k)"
    using k unfolding ulp_def
    by (cases "?k = 0") (simp_all add: power_int_def inverse_eq_divide power_one_over)
  then show ?thesis using that by blast
qed

lemma fl_le_int:
  assumes "0 < x" "x < 2 ^ 53" "x \<le> of_int N"
  shows "fl x \<le> of_int N"
proof -
  obtain j :: nat where u: "ulp x = 1 / 2 ^ j" using ulp_small [OF assms(1,2)] .
  have "x / ulp x \<le> of_int (N * 2 ^ j)" using assms(3) by (simp add: u field_simps)
  then have "round_half_even (x / ulp x) \<le> N * 2 ^ j" by (rule rhe_le)
  then have "(of_int (round_half_even (x / ulp x)) :: rat) \<le> of_int (N * 2 ^ j)"
    by (simp only: of_int_le_iff)
  then show ?thesis by (simp add: fl_def u field_simps)
qed

lemma fl_ge_int:
  assumes "0 < x" "x < 2 ^ 53" "of_int N \<le> x"
  shows "of_int N \<le> fl x"
proof -
  obtain j :: nat where u: "ulp x = 1 / 2 ^ j" using ulp_small [OF assms(1,2)] .
  have "of_int (N * 2 ^ j) \<le> x / ulp x" using assms(3) by (simp add: u field_simps)
  then have "N * 2 ^ j \<le> round_half_even (x / ulp x)" by (rule rhe_ge)
  then have "(of_int (N * 2 ^ j) :: rat) \<le> of_int (round_half_even (x / ulp x))"
    by (simp only: of_int_le_iff)
  then show ?thesis by (simp add: fl_def u field_simps)
qed

lemma binary64_small:
  assumes "0 < x" "x < 2 ^ 53"
  shows "binary64 x = Num (fl x)"
proof -
  have "x \<le> of_int (2 ^ 53)" using assms(2) by simp
  then have "fl x \<le> of_int (2 ^ 53)" by (rule fl_le_int [OF assms])
  then have "fl x < 2 ^ 1024" by simp
  then show ?thesis using assms(1) by (simp add: binary64_pos)
qed

lemma fl_of_int:
  assumes "0 < n" "n < 2 ^ 53"
  shows "fl (of_int n) = of_int n"
proof -
  have p: "(0::rat) < of_int n" "(of_int n :: rat) < 2 ^ 53" using assms by simp_all
  have "fl (of_int n) \<le> of_int n" by (rule fl_le_int [OF p]) simp
  moreover have "of_int n \<le> fl (of_int n)" by (rule fl_ge_int [OF p]) simp
  ultimately show ?thesis by simp
qed

lemma binary64_of_int:
  assumes "\<bar>n\<bar> < 2 ^ 53"
  shows "binary64 (of_int n) = Num (of_int n)"
proof -
  consider "n = 0" | "0 < n" | "n < 0" by linarith
  then show ?thesis
  proof cases
    case 1
    then show ?thesis by (simp add: binary64_def)
  next
    case 2
    then have "n < 2 ^ 53" using assms by simp
    then show ?thesis
      using 2 binary64_small [of "of_int n"] fl_of_int [of n] by simp
  next
    case 3
    then have b: "0 < - n" "- n < 2 ^ 53" using assms by simp_all
    have f: "fl (of_int (- n)) = of_int (- n)" using b by (rule fl_of_int)
    have "(of_int n :: rat) < 0" using 3 by simp
    then have "binary64 (of_int n)
        = (if 2 ^ 1024 \<le> fl (- of_int n) then NegInf else Num (- fl (- of_int n)))"
      by (rule binary64_neg)
    moreover have "fl (- of_int n) = - of_int n" using f by simp
    moreover have "\<not> (2::rat) ^ 1024 \<le> - of_int n"
    proof -
      have "(of_int (- n) :: rat) < of_int (2 ^ 53)" using b(2) by (simp only: of_int_less_iff)
      then have "- (of_int n :: rat) < 2 ^ 53" by simp
      then show ?thesis by simp
    qed
    ultimately show ?thesis by simp
  qed
qed

lemma fl_rel_error:
  assumes "1 / 2 ^ 1022 \<le> x"
  shows "\<bar>fl x - x\<bar> \<le> x / 2 ^ 53"
proof -
  have x: "0 < x" using assms by (rule less_le_trans [rotated]) simp
  have lo: "2 powi (ilog2 x) \<le> x" and hi: "x < 2 powi (ilog2 x + 1)"
    using ilog2_bounds [OF x] by simp_all
  have "(1::rat) / 2 ^ 1022 = 2 powi (- 1022)"
    by (simp add: power_int_def inverse_eq_divide power_one_over)
  with assms hi have "(2::rat) powi (- 1022) < 2 powi (ilog2 x + 1)" by simp
  then have "- 1022 < ilog2 x + 1"
    using power_int_increasing [of "ilog2 x + 1" "- 1022" "2::rat"] by force
  then have e: "max (ilog2 x) (- 1022) = ilog2 x" by simp
  have u: "ulp x = 2 powi (ilog2 x) / 2 ^ 52"
    unfolding ulp_def e by (simp add: power_int_diff)
  have "\<bar>of_int (round_half_even (x / ulp x)) - x / ulp x\<bar> \<le> 1/2" by (rule rhe_error)
  then have "\<bar>of_int (round_half_even (x / ulp x)) - x / ulp x\<bar> * ulp x \<le> 1/2 * ulp x"
    using ulp_pos [of x] by (simp add: mult_right_mono)
  moreover have "\<bar>of_int (round_half_even (x / ulp x)) - x / ulp x\<bar> * ulp x = \<bar>fl x - x\<bar>"
  proof -
    have "\<bar>of_int (round_half_even (x / ulp x)) - x / ulp x\<bar> * ulp x
          = \<bar>(of_int (round_half_even (x / ulp x)) - x / ulp x) * ulp x\<bar>"
      using ulp_pos [of x] by (simp add: abs_mult)
    also have "(of_int (round_half_even (x / ulp x)) - x / ulp x) * ulp x = fl x - x"
      using ulp_pos [of x] by (simp add: fl_def algebra_simps)
    finally show ?thesis .
  qed
  ultimately have "\<bar>fl x - x\<bar> \<le> 1/2 * ulp x" by simp
  also have "\<dots> = 2 powi (ilog2 x) / 2 ^ 53" by (simp add: u)
  also have "\<dots> \<le> x / 2 ^ 53" using lo by (simp add: divide_right_mono)
  finally show ?thesis .
qed


lemma binary64_numeral:
  "(numeral w :: int) < 2 ^ 53 \<Longrightarrow> binary64 (numeral w) = Num (numeral w)"
  using binary64_of_int [of "numeral w"] by simp

lemma binary64_one: "binary64 1 = Num 1"
  using binary64_of_int [of 1] by simp

lemma fl_nonneg: "0 \<le> x \<Longrightarrow> 0 \<le> fl x"
proof -
  assume "0 \<le> x"
  then have "of_int 0 \<le> x / ulp x" using ulp_pos [of x] by simp
  then have "0 \<le> round_half_even (x / ulp x)" by (rule rhe_ge)
  then show ?thesis using ulp_pos [of x] by (simp add: fl_def)
qed

section \<open>Loop count, strategy and trim\<close>

lemma loops_rounded:
  assumes "0 < d" and "0 \<le> k" and "of_int k * 60 / d < 2 ^ 53"
  obtains n where "loops (of_int k) (Num d) = Num (of_int n)"
    and "0 \<le> n" and "n \<le> 2 ^ 53"
    and "\<lceil>of_int k * 60 / d\<rceil> - 1 \<le> n" and "n \<le> \<lceil>of_int k * 60 / d\<rceil>"
    and "of_int k * 60 / d = of_int \<lceil>of_int k * 60 / d\<rceil> \<longrightarrow> n = \<lceil>of_int k * 60 / d\<rceil>"
    and "n < \<lceil>of_int k * 60 / d\<rceil> \<longrightarrow> binary64 (of_int k * 60 / d) = Num (of_int n)"
proof -
  define q :: rat where "q = of_int k * 60 / d"
  have q0: "0 \<le> q" using assms(1,2) by (simp add: q_def)
  have q53: "q < 2 ^ 53" using assms(3) by (simp add: q_def)
  have L0: "loops (of_int k) (Num d) = js_ceil (binary64 q)"
    using assms(1) by (simp add: loops_def targetDuration_def q_def)
  have "q \<le> of_int (2 ^ 53)" using q53 by simp
  then have c53: "\<lceil>q\<rceil> \<le> 2 ^ 53" by (simp only: ceiling_le_iff)
  have "\<exists>n. loops (of_int k) (Num d) = Num (of_int n) \<and> 0 \<le> n \<and> n \<le> 2 ^ 53
            \<and> \<lceil>q\<rceil> - 1 \<le> n \<and> n \<le> \<lceil>q\<rceil> \<and> (q = of_int \<lceil>q\<rceil> \<longrightarrow> n = \<lceil>q\<rceil>)
            \<and> (n < \<lceil>q\<rceil> \<longrightarrow> binary64 q = Num (of_int n))"
  proof (cases "q = 0")
    case True
    have "loops (of_int k) (Num d) = Num (of_int 0)"
      using L0 True by (simp add: binary64_def)
    moreover have "\<lceil>q\<rceil> = 0" using True by simp
    ultimately show ?thesis by (intro exI [of _ 0]) simp
  next
    case False
    then have q: "0 < q" using q0 by simp
    have b: "binary64 q = Num (fl q)" using q q53 by (rule binary64_small)
    let ?n = "\<lceil>fl q\<rceil>"
    have L: "loops (of_int k) (Num d) = Num (of_int ?n)"
      using L0 b by simp
    have up: "fl q \<le> of_int \<lceil>q\<rceil>"
      by (rule fl_le_int [OF q q53]) simp
    have "of_int (\<lceil>q\<rceil> - 1) \<le> q" by linarith
    then have lo: "of_int (\<lceil>q\<rceil> - 1) \<le> fl q"
      by (rule fl_ge_int [OF q q53])
    have n_le: "?n \<le> \<lceil>q\<rceil>" using up by (simp only: ceiling_le_iff)
    have c: "fl q \<le> of_int ?n" by (rule le_of_int_ceiling)
    from lo c have "(of_int (\<lceil>q\<rceil> - 1) :: rat) \<le> of_int ?n" by (rule order_trans)
    then have n_ge: "\<lceil>q\<rceil> - 1 \<le> ?n" by (simp only: of_int_le_iff)
    have "(of_int 0 :: rat) \<le> fl q" using fl_nonneg [OF q0] by simp
    from this c have "(of_int 0 :: rat) \<le> of_int ?n" by (rule order_trans)
    then have n0: "0 \<le> ?n" by (simp only: of_int_le_iff)
    have ex: "q = of_int \<lceil>q\<rceil> \<longrightarrow> ?n = \<lceil>q\<rceil>"
    proof
      assume e: "q = of_int \<lceil>q\<rceil>"
      then have "of_int \<lceil>q\<rceil> \<le> q" by simp
      then have "of_int \<lceil>q\<rceil> \<le> fl q" by (rule fl_ge_int [OF q q53])
      with up have "fl q = of_int \<lceil>q\<rceil>" by simp
      then show "?n = \<lceil>q\<rceil>" by simp
    qed
    have n53: "?n \<le> 2 ^ 53" using n_le c53 by (rule order_trans)
    have below: "?n < \<lceil>q\<rceil> \<longrightarrow> binary64 q = Num (of_int ?n)"
    proof
      assume "?n < \<lceil>q\<rceil>"
      with n_ge have "?n = \<lceil>q\<rceil> - 1" by simp
      with lo have "of_int ?n \<le> fl q" by simp
      with c have "fl q = of_int ?n" by (rule antisym)
      with b show "binary64 q = Num (of_int ?n)" by simp
    qed
    from L n0 n53 n_ge n_le ex below show ?thesis by blast
  qed
  then show ?thesis using that unfolding q_def by blast
qed

lemma binary64_pred_int:
  "0 \<le> n \<Longrightarrow> n \<le> 2 ^ 53 \<Longrightarrow> binary64 (of_int n - 1) = Num (of_int n - 1)"
  using binary64_of_int [of "n - 1"] by simp

text \<open>
  C4, as the code has it. For whole minutes \<open>k\<close> whose target \<open>60 k\<close> is exact and a
  binary64 source duration \<open>d > 0\<close>, both loops compute the ceiling of the binary64
  quotient of \<open>60 k\<close> by \<open>d\<close>, for a count below \<open>2 ^ 53\<close>. That count is
  \<open>ceil(60 k / d)\<close> or one less; it is one less only when the rounded quotient is
  itself that integer, and it is \<open>ceil(60 k / d)\<close> whenever \<open>60 k / d\<close> is an
  integer. The audio command repeats the stream that many times less one; the video
  command does the same above ten loops and concatenates that many copies of the input
  otherwise.
\<close>

theorem loop_count_rounded:
  assumes "0 < d" and "binary64 d = Num d"
    and "0 \<le> k" and "k * 60 < 2 ^ 53" and "of_int k * 60 / d < 2 ^ 53"
  shows "\<exists>n. loops (of_int k) (Num d) = Num (of_int n)
       \<and> \<lceil>of_int k * 60 / d\<rceil> - 1 \<le> n \<and> n \<le> \<lceil>of_int k * 60 / d\<rceil>
       \<and> (of_int k * 60 / d = of_int \<lceil>of_int k * 60 / d\<rceil> \<longrightarrow> n = \<lceil>of_int k * 60 / d\<rceil>)
       \<and> (n < \<lceil>of_int k * 60 / d\<rceil> \<longrightarrow>
            js_div (targetDuration (of_int k)) (Num d) = Num (of_int n))
       \<and> (\<exists>c. loopAudio ip (of_int k) (Inr (Num d)) out = Inr c
              \<and> inputOptions c = [StreamLoop (Num (of_int n - 1))])
       \<and> (10 < n \<longrightarrow>
            (\<exists>c. loopVideo cs ip (of_int k) (Inr (Num d)) (Inr vi) out = Inr c
              \<and> inputOptions c = [StreamLoop (Num (of_int n - 1))]))
       \<and> (n \<le> 10 \<longrightarrow>
            (\<exists>c. loopVideo cs ip (of_int k) (Inr (Num d)) (Inr vi) out = Inr c
              \<and> complexFilter c = [ConcatFilter (Num (of_int n))]
              \<and> inputs c = replicate (nat n) ip))"
proof -
  obtain n where L: "loops (of_int k) (Num d) = Num (of_int n)"
    and n0: "0 \<le> n" and n53: "n \<le> 2 ^ 53"
    and lo: "\<lceil>of_int k * 60 / d\<rceil> - 1 \<le> n" and hi: "n \<le> \<lceil>of_int k * 60 / d\<rceil>"
    and ex: "of_int k * 60 / d = of_int \<lceil>of_int k * 60 / d\<rceil> \<longrightarrow> n = \<lceil>of_int k * 60 / d\<rceil>"
    and below: "n < \<lceil>of_int k * 60 / d\<rceil> \<longrightarrow> binary64 (of_int k * 60 / d) = Num (of_int n)"
    using loops_rounded [OF assms(1,3,5)] by blast
  have B: "n < \<lceil>of_int k * 60 / d\<rceil> \<longrightarrow>
            js_div (targetDuration (of_int k)) (Num d) = Num (of_int n)"
    using below assms(1) by (simp add: targetDuration_def)
  have P: "binary64 (of_int n - 1) = Num (of_int n - 1)"
    using n0 n53 by (rule binary64_pred_int)
  have A: "\<exists>c. loopAudio ip (of_int k) (Inr (Num d)) out = Inr c
              \<and> inputOptions c = [StreamLoop (Num (of_int n - 1))]"
    by (simp add: loopAudio_def L P ffmpeg_def)
  have V1: "10 < n \<longrightarrow>
            (\<exists>c. loopVideo cs ip (of_int k) (Inr (Num d)) (Inr vi) out = Inr c
              \<and> inputOptions c = [StreamLoop (Num (of_int n - 1))])"
  proof
    assume "10 < n"
    then have "(10::rat) < of_int n" by linarith
    then show "\<exists>c. loopVideo cs ip (of_int k) (Inr (Num d)) (Inr vi) out = Inr c
              \<and> inputOptions c = [StreamLoop (Num (of_int n - 1))]"
      by (simp add: loopVideo_def L P ffmpeg_def Let_def)
  qed
  have V2: "n \<le> 10 \<longrightarrow>
            (\<exists>c. loopVideo cs ip (of_int k) (Inr (Num d)) (Inr vi) out = Inr c
              \<and> complexFilter c = [ConcatFilter (Num (of_int n))]
              \<and> inputs c = replicate (nat n) ip)"
  proof
    assume h: "n \<le> 10"
    then have a: "\<not> (10::rat) < of_int n" by linarith
    from h n0 have b: "(0::rat) \<le> of_int n" "(of_int n :: rat) < 4294967296" by linarith+
    show "\<exists>c. loopVideo cs ip (of_int k) (Inr (Num d)) (Inr vi) out = Inr c
              \<and> complexFilter c = [ConcatFilter (Num (of_int n))]
              \<and> inputs c = replicate (nat n) ip"
      using a b by (simp add: loopVideo_def L ffmpeg_def Let_def)
  qed
  from L lo hi ex B A V1 V2 show ?thesis by blast
qed

lemma loops_30s_1min: "loops 1 (Num 30) = Num 2"
  by code_simp

lemma loops_5s_10min: "loops 10 (Num 5) = Num 120"
  by code_simp

text \<open>Three probed durations, read from their decimal text: 2.4 s, 9.12 s and 69.6 s.\<close>

lemma loops_2_4s_1min: "loops 1 (parseFloat (12/5)) = Num 25"
  by code_simp

lemma loops_9_12s_19min: "loops 19 (parseFloat (228/25)) = Num 126"
  by code_simp

lemma loops_69_6s_29min: "loops 29 (parseFloat (348/5)) = Num 26"
  by code_simp

text \<open>The two examples of the specification: 30 s for 1 minute, 5 s for 10 minutes.\<close>

theorem loop_count_rounded_witness:
  "(0::rat) < 30 \<and> binary64 30 = Num 30 \<and> targetDuration 1 = 60 \<and> loops 1 (Num 30) = Num 2
   \<and> (0::rat) < 5 \<and> binary64 5 = Num 5 \<and> targetDuration 10 = 600 \<and> loops 10 (Num 5) = Num 120"
proof -
  have a: "loops 1 (Num 30) = Num 2"
    using loop_count_rounded [of 30 1] by (auto simp: binary64_numeral)
  have b: "loops 10 (Num 5) = Num 120"
    using loop_count_rounded [of 5 10] by (auto simp: binary64_numeral)
  from a b show ?thesis by (simp add: targetDuration_def binary64_numeral)
qed

text \<open>
  The formula as stated fails for a probed duration of 2.4 s and 1 minute: the binary64
  number read is just below 2.4, so \<open>60 / d\<close> is just above 25 and its ceiling is 26,
  while the binary64 quotient is 25 and the code loops 25 times.
\<close>

theorem loop_count_counterexample:
  "parseFloat (12/5) = Num (5404319552844595 / 2251799813685248)
   \<and> (0::rat) < 5404319552844595 / 2251799813685248
   \<and> loops 1 (Num (5404319552844595 / 2251799813685248)) = Num 25
   \<and> \<lceil>60 * 1 / (5404319552844595 / 2251799813685248 :: rat)\<rceil> = 26"
proof -
  have "parseFloat (12/5) = Num (5404319552844595 / 2251799813685248)" by code_simp
  moreover have "loops 1 (Num (5404319552844595 / 2251799813685248)) = Num 25" by code_simp
  moreover have "\<lceil>60 * 1 / (5404319552844595 / 2251799813685248 :: rat)\<rceil> = 26" by code_simp
  ultimately show ?thesis by simp
qed

lemma loopVideo_strategy:
  assumes "loopVideo cs ip m (Inr d) (Inr vi) out = Inr c"
  shows "strategy_of c = Some (if js_gt (loops m d) 10 then stream_repeat else concatenate)"
  using assms
  by (auto simp: loopVideo_def Let_def strategy_of_def ffmpeg_def split: if_splits sum.splits)

lemma loopAudio_strategy:
  assumes "loopAudio ip m (Inr d) out = Inr c"
  shows "strategy_of c = Some stream_repeat"
  using assms
  by (auto simp: loopAudio_def Let_def strategy_of_def ffmpeg_def)

lemma loops_ten: "loops 1 (Num 6) = Num 10"
  by (simp add: loops_def targetDuration_def binary64_numeral)

lemma loops_eleven: "loops (11/10) (Num 6) = Num 11"
  by (simp add: loops_def targetDuration_def binary64_numeral)

text \<open>
  C2, as the code has it. The video loop chooses by the threshold: more than ten loops
  repeat the stream, ten or fewer concatenate. The audio loop has no concatenation
  branch: it repeats the stream whatever the loop count.
\<close>

theorem strategy_threshold_video_only:
  "(\<forall>c. loopVideo cs ip m (Inr d) (Inr vi) out = Inr c \<longrightarrow>
        strategy_of c = Some (if js_gt (loops m d) 10 then stream_repeat else concatenate))
   \<and> (\<forall>c. loopAudio ip' m (Inr d') out' = Inr c \<longrightarrow> strategy_of c = Some stream_repeat)"
  using loopVideo_strategy loopAudio_strategy by blast

text \<open>
  At the boundary: a 6 s video for 60 s (10 loops) is concatenated, for 66 s (11 loops) it
  is repeated; a 6 s audio for 60 s is repeated.
\<close>

theorem strategy_threshold_video_only_witness:
  "map_sum id strategy_of
      (loopVideo MediaProcessor_defaults ''v.mp4'' 1 (Inr (Num 6))
         (Inr \<lparr>width = 1920, height = 1080\<rparr>) ''o.mp4'')
     = Inr (Some concatenate)
   \<and> map_sum id strategy_of
      (loopVideo MediaProcessor_defaults ''v.mp4'' (11/10) (Inr (Num 6))
         (Inr \<lparr>width = 1920, height = 1080\<rparr>) ''o.mp4'')
     = Inr (Some stream_repeat)
   \<and> map_sum id strategy_of (loopAudio ''a.wav'' 1 (Inr (Num 6)) ''o.wav'')
     = Inr (Some stream_repeat)"
proof -
  obtain c1 where c1: "loopVideo MediaProcessor_defaults ''v.mp4'' 1 (Inr (Num 6))
      (Inr \<lparr>width = 1920, height = 1080\<rparr>) ''o.mp4'' = Inr c1"
    by (simp add: loopVideo_def Let_def loops_ten)
  obtain c2 where c2: "loopVideo MediaProcessor_defaults ''v.mp4'' (11/10) (Inr (Num 6))
      (Inr \<lparr>width = 1920, height = 1080\<rparr>) ''o.mp4'' = Inr c2"
    by (simp add: loopVideo_def Let_def loops_eleven)
  obtain c3 where c3: "loopAudio ''a.wav'' 1 (Inr (Num 6)) ''o.wav'' = Inr c3"
    by (simp add: loopAudio_def Let_def)
  have t1: "strategy_of c1 = Some concatenate"
    using strategy_threshold_video_only
      [where cs = MediaProcessor_defaults and ip = "''v.mp4''" and m = 1 and d = "Num 6"
         and vi = "\<lparr>width = 1920, height = 1080\<rparr>" and out = "''o.mp4''"] c1
    by (simp add: loops_ten)
  have t2: "strategy_of c2 = Some stream_repeat"
    using strategy_threshold_video_only
      [where cs = MediaProcessor_defaults and ip = "''v.mp4''" and m = "11/10"
         and d = "Num 6" and vi = "\<lparr>width = 1920, height = 1080\<rparr>" and out = "''o.mp4''"] c2
    by (simp add: loops_eleven)
  have t3: "strategy_of c3 = Some stream_repeat"
    using strategy_threshold_video_only
      [where ip' = "''a.wav''" and m = 1 and d' = "Num 6" and out' = "''o.wav''"] c3
    by simp
  show ?thesis by (simp add: c1 c2 c3 t1 t2 t3)
qed

text \<open>
  The claim as stated fails for audio: a 6 s audio source for 1 minute gives 10 loops,
  and the command repeats the stream instead of concatenating.
\<close>

theorem audio_strategy_counterexample:
  "loops 1 (Num 6) = Num 10
   \<and> map_sum id strategy_of (loopAudio ''a.wav'' 1 (Inr (Num 6)) ''looped.wav'')
       = Inr (Some stream_repeat)
   \<and> stream_repeat \<noteq> concatenate"
  by (simp add: loops_def targetDuration_def loopAudio_def strategy_of_def ffmpeg_def
        binary64_numeral)

lemma has_option_append_right: "has_option f v ys \<Longrightarrow> has_option f v (xs @ ys)"
proof (induction xs)
  case Nil
  then show ?case by simp
next
  case (Cons x xs)
  then have h: "has_option f v (xs @ ys)" by simp
  then obtain b rest where "xs @ ys = b # rest" by (cases "xs @ ys") auto
  with h show ?case by simp
qed

lemma has_option_append_left: "has_option f v xs \<Longrightarrow> has_option f v (xs @ ys)"
  by (induction f v xs rule: has_option.induct) auto

text \<open>
  C5. Every command built by the video loop (either strategy) and by the audio loop has
  the output option \<^verbatim>\<open>-t\<close> followed by the target duration \<open>60 m\<close>.
\<close>

theorem trim_always_present:
  "(\<forall>c. loopVideo cs ip m pd pinfo out = Inr c \<longrightarrow>
        has_option ''-t'' (NumStr (Num (60 * m))) (outputOptions c))
   \<and> (\<forall>c. loopAudio ip' m pd' out' = Inr c \<longrightarrow>
        has_option ''-t'' (NumStr (Num (60 * m))) (outputOptions c))"
proof (intro conjI allI impI)
  fix c assume h: "loopVideo cs ip m pd pinfo out = Inr c"
  let ?fixed = "[Lit ''-c:v libx264'',
                 Lit ''-preset'', Lit (preset cs),
                 Lit ''-crf'', IntStr (crf cs),
                 Lit ''-profile:v'', Lit (profile cs),
                 Lit ''-level'', Lit (level cs),
                 Lit ''-pix_fmt yuv420p'',
                 Lit ''-movflags +faststart'',
                 Lit ''-threads 0'',
                 Lit ''-t'', NumStr (Num (targetDuration m))]"
  have f: "has_option ''-t'' (NumStr (Num (60 * m))) ?fixed"
    by (simp add: targetDuration_def mult.commute)
  from h obtain vi where vi: "pinfo = Inr vi"
    by (auto simp: loopVideo_def split: sum.splits)
  let ?post = "push_if ''-bf'' (bframes cs) @ push_if ''-g'' (gopSize cs)
                 @ (case getVideoScaleFilter cs vi of None \<Rightarrow> []
                    | Some (w, h) \<Rightarrow> [Lit ''-vf'', ScaleFilter w h])"
  from h vi have "outputOptions c = [] @ ?fixed @ ?post
                \<or> outputOptions c = [Lit ''-map [outv]''] @ ?fixed @ ?post"
    by (auto simp: loopVideo_def Let_def ffmpeg_def split: sum.splits if_splits)
  then show "has_option ''-t'' (NumStr (Num (60 * m))) (outputOptions c)"
    using has_option_append_right [OF has_option_append_left [OF f]] by metis
next
  fix c assume h: "loopAudio ip' m pd' out' = Inr c"
  then show "has_option ''-t'' (NumStr (Num (60 * m))) (outputOptions c)"
    by (auto simp: loopAudio_def Let_def targetDuration_def mult.commute split: sum.splits)
qed

text \<open>
  A concatenated video (10 loops), a repeated video (11 loops) and an audio loop, each
  trimmed to its target.
\<close>

theorem trim_always_present_witness:
  "(\<exists>c. loopVideo MediaProcessor_defaults ''v.mp4'' 1 (Inr (Num 6))
           (Inr \<lparr>width = 1920, height = 1080\<rparr>) ''o.mp4'' = Inr c
        \<and> strategy_of c = Some concatenate
        \<and> has_option ''-t'' (NumStr (Num 60)) (outputOptions c))
   \<and> (\<exists>c. loopVideo MediaProcessor_defaults ''v.mp4'' (11/10) (Inr (Num 6))
           (Inr \<lparr>width = 1920, height = 1080\<rparr>) ''o.mp4'' = Inr c
        \<and> strategy_of c = Some stream_repeat
        \<and> has_option ''-t'' (NumStr (Num 66)) (outputOptions c))
   \<and> (\<exists>c. loopAudio ''a.wav'' 1 (Inr (Num 6)) ''o.wav'' = Inr c
        \<and> has_option ''-t'' (NumStr (Num 60)) (outputOptions c))"
proof -
  obtain c1 where c1: "loopVideo MediaProcessor_defaults ''v.mp4'' 1 (Inr (Num 6))
      (Inr \<lparr>width = 1920, height = 1080\<rparr>) ''o.mp4'' = Inr c1"
    by (simp add: loopVideo_def Let_def loops_ten)
  obtain c2 where c2: "loopVideo MediaProcessor_defaults ''v.mp4'' (11/10) (Inr (Num 6))
      (Inr \<lparr>width = 1920, height = 1080\<rparr>) ''o.mp4'' = Inr c2"
    by (simp add: loopVideo_def Let_def loops_eleven)
  obtain c3 where c3: "loopAudio ''a.wav'' 1 (Inr (Num 6)) ''o.wav'' = Inr c3"
    by (simp add: loopAudio_def Let_def)
  have s1: "strategy_of c1 = Some concatenate"
    using loopVideo_strategy [OF c1] by (simp add: loops_ten)
  have s2: "strategy_of c2 = Some stream_repeat"
    using loopVideo_strategy [OF c2] by (simp add: loops_eleven)
  have t1: "has_option ''-t'' (NumStr (Num 60)) (outputOptions c1)"
    using trim_always_present
      [where cs = MediaProcessor_defaults and ip = "''v.mp4''" and m = 1
         and pd = "Inr (Num 6)" and pinfo = "Inr \<lparr>width = 1920, height = 1080\<rparr>"
         and out = "''o.mp4''"] c1
    by simp
  have t2: "has_option ''-t'' (NumStr (Num 66)) (outputOptions c2)"
    using trim_always_present
      [where cs = MediaProcessor_defaults and ip = "''v.mp4''" and m = "11/10"
         and pd = "Inr (Num 6)" and pinfo = "Inr \<lparr>width = 1920, height = 1080\<rparr>"
         and out = "''o.mp4''"] c2
    by simp
  have t3: "has_option ''-t'' (NumStr (Num 60)) (outputOptions c3)"
    using trim_always_present
      [where ip' = "''a.wav''" and m = 1 and pd' = "Inr (Num 6)" and out' = "''o.wav''"] c3
    by simp
  show ?thesis using c1 c2 c3 s1 s2 t1 t2 t3 by simp
qed

section \<open>Scale filter\<close>

lemma half_integer_between:
  fixes E P :: rat and I h n :: int
  assumes h: "0 < h" and I: "of_int I = 2 * of_int h * E"
    and near: "\<bar>P - E\<bar> < 1 / (2 * of_int h)"
    and n: "of_int n \<le> P + 1/2" "P + 1/2 < of_int n + 1"
  shows "\<bar>of_int n - E\<bar> \<le> 1/2"
proof -
  have hp: "(0::rat) < 2 * of_int h" using h by simp
  have e1: "E < P + 1 / (2 * of_int h)" and e2: "P - 1 / (2 * of_int h) < E"
    using near by (simp_all add: abs_less_iff) 
  have "E < of_int n + 1/2 + 1 / (2 * of_int h)" using e1 n(2) by linarith
  then have "2 * of_int h * E < 2 * of_int h * (of_int n + 1/2 + 1 / (2 * of_int h))"
    using hp by (simp only: mult_less_cancel_left_pos)
  also have "\<dots> = of_int ((2 * n + 1) * h + 1)" using h by (simp add: field_simps)
  finally have "(of_int I :: rat) < of_int ((2 * n + 1) * h + 1)" using I by simp
  then have "I < (2 * n + 1) * h + 1" by (simp only: of_int_less_iff)
  then have "I \<le> (2 * n + 1) * h" by simp
  then have "(of_int I :: rat) \<le> of_int ((2 * n + 1) * h)" by (simp only: of_int_le_iff)
  then have "2 * of_int h * E \<le> 2 * of_int h * (of_int n + 1/2)"
    using I by (simp add: field_simps)
  then have up: "E \<le> of_int n + 1/2" using hp by (simp only: mult_le_cancel_left_pos)
  have "of_int n - 1/2 - 1 / (2 * of_int h) < E" using e2 n(1) by linarith
  then have "2 * of_int h * (of_int n - 1/2 - 1 / (2 * of_int h)) < 2 * of_int h * E"
    using hp by (simp only: mult_less_cancel_left_pos)
  moreover have "2 * of_int h * (of_int n - 1/2 - 1 / (2 * of_int h))
                 = (of_int ((2 * n - 1) * h - 1) :: rat)" using h by (simp add: field_simps)
  ultimately have "(of_int ((2 * n - 1) * h - 1) :: rat) < of_int I" using I by simp
  then have "(2 * n - 1) * h - 1 < I" by (simp only: of_int_less_iff)
  then have "(2 * n - 1) * h \<le> I" by simp
  then have "(of_int ((2 * n - 1) * h) :: rat) \<le> of_int I" by (simp only: of_int_le_iff)
  then have "2 * of_int h * (of_int n - 1/2) \<le> 2 * of_int h * E"
    using I by (simp add: field_simps)
  then have lo: "of_int n - 1/2 \<le> E" using hp by (simp only: mult_le_cancel_left_pos)
  from up lo show ?thesis by linarith
qed

lemma scaled_width:
  assumes w: "0 < w" "w < 2 ^ 24" and mh: "0 < mh" "mh < h" and h: "h < 2 ^ 24"
  shows "\<exists>n. js_round (js_mul (of_int mh) (js_div (of_int w) (Num (of_int h)))) = Num (of_int n)
           \<and> 0 \<le> n \<and> n \<le> 2 ^ 53
           \<and> \<bar>of_int n - of_int mh * (of_int w / of_int h)\<bar> \<le> (1/2 :: rat)"
proof -
  define r :: rat where "r = of_int w / of_int h"
  define E :: rat where "E = of_int mh * r"
  have hpos: "0 < h" using mh by simp
  have hr: "(0::rat) < of_int h" "(of_int h :: rat) < 2 ^ 24" "(1::rat) \<le> of_int mh"
    "(of_int mh :: rat) < of_int h" "(1::rat) \<le> of_int w" "(of_int w :: rat) < 2 ^ 24"
    using w mh h by simp_all
  have r0: "0 < r" using hr by (simp add: r_def)
  have r_lo: "1 / 2 ^ 24 \<le> r"
  proof -
    have "1 / 2 ^ 24 \<le> 1 / (of_int h :: rat)" using hr by (simp add: frac_le)
    also have "\<dots> \<le> r" using hr by (simp add: r_def divide_right_mono)
    finally show ?thesis .
  qed
  have r_hi: "r < 2 ^ 24"
  proof -
    have "r \<le> of_int w" using hr by (simp add: r_def field_simps)
    then show ?thesis using hr by linarith
  qed
  have E_lt_w: "E < of_int w"
  proof -
    have e: "E = of_int w * (of_int mh / of_int h)" by (simp add: E_def r_def)
    have "(of_int mh / of_int h :: rat) < 1" using hr by simp
    then have "of_int w * (of_int mh / of_int h :: rat) < of_int w * 1"
      using hr by (intro mult_strict_left_mono) simp_all
    then show ?thesis unfolding e by simp
  qed
  have E0: "0 < E" using r0 hr by (simp add: E_def)
  have E_hi: "E < 2 ^ 24" using E_lt_w hr by linarith
  have b1: "binary64 r = Num (fl r)" by (rule binary64_small [OF r0]) (use r_hi in simp)
  have err1: "\<bar>fl r - r\<bar> \<le> r / 2 ^ 53"
    by (rule fl_rel_error) (use r_lo in simp)
  have D: "js_div (of_int w) (Num (of_int h)) = Num (fl r)"
    using hr b1 by (simp add: r_def)
  define A :: rat where "A = of_int mh * fl r"
  have small_r: "r / 2 ^ 53 \<le> r / 2" using r0 by simp
  have flr_lo: "r / 2 \<le> fl r" and flr_hi: "fl r \<le> r + r / 2 ^ 53"
    using err1 small_r by linarith+
  have A_E: "\<bar>A - E\<bar> \<le> E / 2 ^ 53"
  proof -
    have "\<bar>A - E\<bar> = of_int mh * \<bar>fl r - r\<bar>"
      using hr by (simp add: A_def E_def abs_mult right_diff_distrib [symmetric])
    also have "\<dots> \<le> of_int mh * (r / 2 ^ 53)"
      using err1 hr by (simp add: mult_left_mono)
    finally show ?thesis by (simp add: E_def)
  qed
  moreover have small_E: "E / 2 ^ 53 \<le> E / 2" using E0 by simp
  ultimately have A_lo: "E / 2 \<le> A" and A_hi: "A \<le> 2 * E"
    using E0 by linarith+
  have A0: "0 < A" using A_lo E0 by linarith
  have A53: "A < 2 ^ 53" using A_hi E_hi by simp
  have A_norm: "1 / 2 ^ 1022 \<le> A"
  proof -
    have "(1::rat) / 2 ^ 1022 \<le> 1 / 2 ^ 25" by simp
    also have "\<dots> \<le> r / 2" using r_lo by simp
    also have "\<dots> \<le> E / 2" using hr r0 by (simp add: E_def)
    also have "\<dots> \<le> A" by (rule A_lo)
    finally show ?thesis .
  qed
  have b2: "binary64 A = Num (fl A)" by (rule binary64_small [OF A0 A53])
  have err2: "\<bar>fl A - A\<bar> \<le> A / 2 ^ 53" by (rule fl_rel_error [OF A_norm])
  have M: "js_mul (of_int mh) (js_div (of_int w) (Num (of_int h))) = Num (fl A)"
    using D b2 by (simp add: A_def)
  define n where "n = \<lfloor>fl A + 1/2\<rfloor>"
  have R: "js_round (js_mul (of_int mh) (js_div (of_int w) (Num (of_int h)))) = Num (of_int n)"
    using M by (simp add: n_def)
  have near: "\<bar>fl A - E\<bar> < 1 / (2 * of_int h)"
  proof -
    have "\<bar>fl A - E\<bar> \<le> \<bar>fl A - A\<bar> + \<bar>A - E\<bar>" by simp
    also have "\<dots> \<le> A / 2 ^ 53 + E / 2 ^ 53" using err2 A_E by simp
    also have "\<dots> \<le> 3 * E / 2 ^ 53" using A_hi by simp
    also have "\<dots> < 3 * 2 ^ 24 / 2 ^ 53" using E_hi by simp
    also have "\<dots> \<le> 1 / 2 ^ 25" by simp
    also have "\<dots> \<le> 1 / (2 * of_int h)" using hr by (simp add: frac_le)
    finally show ?thesis .
  qed
  have I: "(of_int (2 * mh * w) :: rat) = 2 * of_int h * E"
    using hr by (simp add: E_def r_def)
  have nb: "of_int n \<le> fl A + 1/2" "fl A + 1/2 < of_int n + 1"
    unfolding n_def by linarith+
  have bound: "\<bar>of_int n - E\<bar> \<le> 1/2"
    by (rule half_integer_between [OF hpos I near nb])
  have flA0: "0 \<le> fl A" using A0 by (intro fl_nonneg) simp
  have n0: "0 \<le> n" unfolding n_def using flA0 by simp
  have "(of_int n :: rat) \<le> E + 1/2" using bound by linarith
  also have "\<dots> \<le> of_int (2 ^ 53)" using E_hi by simp
  finally have n53: "n \<le> 2 ^ 53" by (simp only: of_int_le_iff)
  from R n0 n53 bound show ?thesis unfolding E_def r_def by blast
qed

lemma push_if_no_scale: "filter is_ScaleFilter (push_if flag x) = []"
  by (simp add: push_if_def split: option.splits)

lemma loopVideo_options:
  assumes "loopVideo cs ip m pd (Inr vi) out = Inr c"
  obtains pre where "filter is_ScaleFilter pre = []"
    and "outputOptions c = pre @
           (case getVideoScaleFilter cs vi of
              None \<Rightarrow> []
            | Some (w, h) \<Rightarrow> [Lit ''-vf'', ScaleFilter w h])"
proof -
  let ?fixed = "[Lit ''-c:v libx264'',
                 Lit ''-preset'', Lit (preset cs),
                 Lit ''-crf'', IntStr (crf cs),
                 Lit ''-profile:v'', Lit (profile cs),
                 Lit ''-level'', Lit (level cs),
                 Lit ''-pix_fmt yuv420p'',
                 Lit ''-movflags +faststart'',
                 Lit ''-threads 0'',
                 Lit ''-t'', NumStr (Num (targetDuration m))]
                @ push_if ''-bf'' (bframes cs) @ push_if ''-g'' (gopSize cs)"
  let ?vf = "(case getVideoScaleFilter cs vi of
              None \<Rightarrow> []
            | Some (w, h) \<Rightarrow> [Lit ''-vf'', ScaleFilter w h])"
  have n1: "filter is_ScaleFilter ?fixed = []" by (simp add: push_if_no_scale)
  have n2: "filter is_ScaleFilter ([Lit ''-map [outv]''] @ ?fixed) = []"
    by (simp add: push_if_no_scale)
  from assms have "outputOptions c = ?fixed @ ?vf
                 \<or> outputOptions c = ([Lit ''-map [outv]''] @ ?fixed) @ ?vf"
    by (auto simp: loopVideo_def Let_def ffmpeg_def split: sum.splits if_splits)
  then show ?thesis using that n1 n2 by blast
qed

lemma even_height: "even (if mh mod 2 = 0 then mh else mh - (1::int))"
  by presburger

text \<open>
  C7. For every command built by the video loop: a profile without a maximum height
  gets no scale filter. With a positive maximum height \<open>mh\<close>, the command has no scale
  filter when the probed height is at most \<open>mh\<close> (no upscaling), and when the probed
  height exceeds \<open>mh\<close> its output options hold \<^verbatim>\<open>-vf\<close> followed by exactly one scale
  filter, whose height is \<open>mh\<close> made even (below the probed height) and whose width, for
  a geometry below \<open>2 ^ 24\<close> pixels each way, is an even integer at most 3/2 away from
  the aspect-preserving width \<open>mh * width / height\<close>.
\<close>

theorem scale_filter_guard:
  assumes "loopVideo cs ip m pd (Inr vi) out = Inr c"
  shows "(maxHeight cs = None \<longrightarrow> filter is_ScaleFilter (outputOptions c) = [])
   \<and> (\<forall>mh. maxHeight cs = Some mh \<and> 0 < mh \<longrightarrow>
        (height vi \<le> mh \<longrightarrow> filter is_ScaleFilter (outputOptions c) = [])
      \<and> (mh < height vi \<longrightarrow>
           (\<exists>w h. has_option ''-vf'' (ScaleFilter w h) (outputOptions c)
              \<and> filter is_ScaleFilter (outputOptions c) = [ScaleFilter w h]
              \<and> even h \<and> (h = mh \<or> h = mh - 1) \<and> h < height vi
              \<and> (0 < width vi \<and> width vi < 2 ^ 24 \<and> height vi < 2 ^ 24 \<longrightarrow>
                   (\<exists>n. w = Num (of_int n) \<and> even n
                      \<and> \<bar>of_int n - of_int mh * (of_int (width vi) / of_int (height vi))\<bar>
                          \<le> (3/2 :: rat))))))"
proof -
  obtain pre where pre: "filter is_ScaleFilter pre = []"
    and opts: "outputOptions c = pre @
           (case getVideoScaleFilter cs vi of
              None \<Rightarrow> []
            | Some (w, h) \<Rightarrow> [Lit ''-vf'', ScaleFilter w h])"
    using loopVideo_options [OF assms] by blast
  have none: "getVideoScaleFilter cs vi = None \<Longrightarrow> filter is_ScaleFilter (outputOptions c) = []"
    using pre opts by simp
  have N: "maxHeight cs = None \<longrightarrow> filter is_ScaleFilter (outputOptions c) = []"
    by (auto intro!: none simp: getVideoScaleFilter_def)
  have S: "(height vi \<le> mh \<longrightarrow> filter is_ScaleFilter (outputOptions c) = [])
      \<and> (mh < height vi \<longrightarrow>
           (\<exists>w h. has_option ''-vf'' (ScaleFilter w h) (outputOptions c)
              \<and> filter is_ScaleFilter (outputOptions c) = [ScaleFilter w h]
              \<and> even h \<and> (h = mh \<or> h = mh - 1) \<and> h < height vi
              \<and> (0 < width vi \<and> width vi < 2 ^ 24 \<and> height vi < 2 ^ 24 \<longrightarrow>
                   (\<exists>n. w = Num (of_int n) \<and> even n
                      \<and> \<bar>of_int n - of_int mh * (of_int (width vi) / of_int (height vi))\<bar>
                          \<le> (3/2 :: rat)))))"
    if mh: "maxHeight cs = Some mh" "0 < mh" for mh
  proof (intro conjI impI)
    assume "height vi \<le> mh"
    then have "getVideoScaleFilter cs vi = None"
      using mh by (simp add: getVideoScaleFilter_def)
    then show "filter is_ScaleFilter (outputOptions c) = []" by (rule none)
  next
    assume gt: "mh < height vi"
    define nw where "nw = js_round (js_mul (of_int mh)
                            (js_div (of_int (width vi)) (Num (of_int (height vi)))))"
    define w where "w = (if js_even nw then nw else js_pred nw)"
    define h where "h = (if mh mod 2 = 0 then mh else mh - 1)"
    have g: "getVideoScaleFilter cs vi = Some (w, h)"
      using mh gt by (simp add: getVideoScaleFilter_def Let_def w_def h_def nw_def)
    have o: "outputOptions c = pre @ [Lit ''-vf'', ScaleFilter w h]"
      using opts g by simp
    have 1: "has_option ''-vf'' (ScaleFilter w h) (outputOptions c)"
      unfolding o by (rule has_option_append_right) simp
    have 2: "filter is_ScaleFilter (outputOptions c) = [ScaleFilter w h]"
      using pre by (simp add: o)
    have 3: "even h" unfolding h_def by (rule even_height)
    have 4: "h = mh \<or> h = mh - 1" by (simp add: h_def)
    have 5: "h < height vi" using gt by (simp add: h_def)
    have 6: "0 < width vi \<and> width vi < 2 ^ 24 \<and> height vi < 2 ^ 24 \<longrightarrow>
                   (\<exists>n. w = Num (of_int n) \<and> even n
                      \<and> \<bar>of_int n - of_int mh * (of_int (width vi) / of_int (height vi))\<bar>
                          \<le> (3/2 :: rat))"
    proof
      assume b: "0 < width vi \<and> width vi < 2 ^ 24 \<and> height vi < 2 ^ 24"
      then obtain n where n: "nw = Num (of_int n)" "0 \<le> n" "n \<le> 2 ^ 53"
        and e: "\<bar>of_int n - of_int mh * (of_int (width vi) / of_int (height vi))\<bar> \<le> (1/2 :: rat)"
        using scaled_width [of "width vi" mh "height vi"] mh(2) gt unfolding nw_def by blast
      show "\<exists>n. w = Num (of_int n) \<and> even n
                      \<and> \<bar>of_int n - of_int mh * (of_int (width vi) / of_int (height vi))\<bar>
                          \<le> (3/2 :: rat)"
      proof (cases "even n")
        case True
        then have "w = Num (of_int n)" by (simp add: w_def n(1))
        with True e show ?thesis by (intro exI [of _ n]) simp
      next
        case False
        have "binary64 (of_int n - 1) = Num (of_int n - 1)"
          using n(2,3) by (rule binary64_pred_int)
        then have "w = Num (of_int (n - 1))" using False by (simp add: w_def n(1))
        moreover have "even (n - 1)" using False by simp
        moreover have "\<bar>of_int (n - 1) - of_int mh * (of_int (width vi) / of_int (height vi))\<bar>
                          \<le> (3/2 :: rat)"
        proof -
          have "(of_int (n - 1) :: rat) = of_int n - 1" by simp
          with e show ?thesis by linarith
        qed
        ultimately show ?thesis by blast
      qed
    qed
    from 1 2 3 4 5 6 show "\<exists>w h. has_option ''-vf'' (ScaleFilter w h) (outputOptions c)
              \<and> filter is_ScaleFilter (outputOptions c) = [ScaleFilter w h]
              \<and> even h \<and> (h = mh \<or> h = mh - 1) \<and> h < height vi
              \<and> (0 < width vi \<and> width vi < 2 ^ 24 \<and> height vi < 2 ^ 24 \<longrightarrow>
                   (\<exists>n. w = Num (of_int n) \<and> even n
                      \<and> \<bar>of_int n - of_int mh * (of_int (width vi) / of_int (height vi))\<bar>
                          \<le> (3/2 :: rat)))"
      by blast
  qed
  from N S show ?thesis by blast
qed

lemma scale_2160_to_1080:
  "getVideoScaleFilter (MediaProcessor_defaults\<lparr>maxHeight := Some 1080\<rparr>)
     \<lparr>width = 3840, height = 2160\<rparr> = Some (Num 1920, 1080)"
  by code_simp

lemma scale_3418x1440_to_1080:
  "getVideoScaleFilter (MediaProcessor_defaults\<lparr>maxHeight := Some 1080\<rparr>)
     \<lparr>width = 3418, height = 1440\<rparr> = Some (Num 2562, 1080)"
  by code_simp

text \<open>
  A 3840x2160 source under a 1080 maximum is scaled to 1920x1080; a 1280x720 one is not
  scaled; without a maximum nothing is scaled.
\<close>

theorem scale_filter_guard_witness:
  "(\<exists>c. loopVideo (MediaProcessor_defaults\<lparr>maxHeight := Some 1080\<rparr>) ''v.mp4'' 1
           (Inr (Num 30)) (Inr \<lparr>width = 3840, height = 2160\<rparr>) ''o.mp4'' = Inr c
        \<and> has_option ''-vf'' (ScaleFilter (Num 1920) 1080) (outputOptions c)
        \<and> filter is_ScaleFilter (outputOptions c) = [ScaleFilter (Num 1920) 1080])
   \<and> (\<exists>c. loopVideo (MediaProcessor_defaults\<lparr>maxHeight := Some 1080\<rparr>) ''v.mp4'' 1
           (Inr (Num 30)) (Inr \<lparr>width = 1280, height = 720\<rparr>) ''o.mp4'' = Inr c
        \<and> filter is_ScaleFilter (outputOptions c) = [])
   \<and> (\<exists>c. loopVideo (MediaProcessor_defaults\<lparr>maxHeight := None\<rparr>) ''v.mp4'' 1
           (Inr (Num 30)) (Inr \<lparr>width = 3840, height = 2160\<rparr>) ''o.mp4'' = Inr c
        \<and> filter is_ScaleFilter (outputOptions c) = [])"
proof -
  let ?cs = "MediaProcessor_defaults\<lparr>maxHeight := Some 1080\<rparr>"
  obtain c1 where c1: "loopVideo ?cs ''v.mp4'' 1 (Inr (Num 30))
      (Inr \<lparr>width = 3840, height = 2160\<rparr>) ''o.mp4'' = Inr c1"
    by (simp add: loopVideo_def Let_def loops_30s_1min)
  obtain c2 where c2: "loopVideo ?cs ''v.mp4'' 1 (Inr (Num 30))
      (Inr \<lparr>width = 1280, height = 720\<rparr>) ''o.mp4'' = Inr c2"
    by (simp add: loopVideo_def Let_def loops_30s_1min)
  obtain c3 where c3: "loopVideo (MediaProcessor_defaults\<lparr>maxHeight := None\<rparr>) ''v.mp4'' 1
      (Inr (Num 30)) (Inr \<lparr>width = 3840, height = 2160\<rparr>) ''o.mp4'' = Inr c3"
    by (simp add: loopVideo_def Let_def loops_30s_1min)
  obtain w h n where a: "has_option ''-vf'' (ScaleFilter w h) (outputOptions c1)"
    and b: "filter is_ScaleFilter (outputOptions c1) = [ScaleFilter w h]"
    and h: "even h" "h = 1080 \<or> h = 1080 - 1"
    and w: "w = Num (of_int n)" "even n"
    and e: "\<bar>of_int n - of_int 1080 * (of_int 3840 / of_int 2160)\<bar> \<le> (3/2 :: rat)"
    using scale_filter_guard [OF c1] by auto
  have h1080: "h = 1080" using h by auto
  have "\<bar>(of_int n :: rat) - 1920\<bar> \<le> 3/2" using e by simp
  then have "(of_int 1918 :: rat) < of_int n" "(of_int n :: rat) < of_int 1922" by linarith+
  then have "1918 < n" "n < 1922" by (simp_all only: of_int_less_iff)
  with w(2) have n1920: "n = 1920" by presburger
  have r1: "has_option ''-vf'' (ScaleFilter (Num 1920) 1080) (outputOptions c1)
        \<and> filter is_ScaleFilter (outputOptions c1) = [ScaleFilter (Num 1920) 1080]"
    using a b w(1) h1080 n1920 by simp
  have r2: "filter is_ScaleFilter (outputOptions c2) = []"
    using scale_filter_guard [OF c2] by simp
  have r3: "filter is_ScaleFilter (outputOptions c3) = []"
    using scale_filter_guard [OF c3] by simp
  from c1 c2 c3 r1 r2 r3 show ?thesis by blast
qed

section \<open>Cleanup\<close>

lemma cleanup_never_throws: "fst (cleanup ps st) = Inr ()"
  by (simp add: cleanup_def split: prod.splits sum.splits)

lemma cleanup_loop_unlocked:
  assumes "\<forall>p. Some p \<in> set ps \<and> p \<in> files st \<longrightarrow> p \<notin> locked st"
  shows "cleanup_loop ps st
           = (Inr (), st\<lparr>files := files st - {p. Some p \<in> set ps \<and> p \<noteq> []}\<rparr>)"
  using assms
proof (induction ps arbitrary: st)
  case Nil
  then show ?case by simp
next
  case (Cons a ps)
  show ?case
  proof (cases a)
    case None
    have "cleanup_loop ps st
            = (Inr (), st\<lparr>files := files st - {p. Some p \<in> set ps \<and> p \<noteq> []}\<rparr>)"
      using Cons.prems by (intro Cons.IH) auto
    with None show ?thesis by simp
  next
    case (Some p)
    show ?thesis
    proof (cases "p \<noteq> [] \<and> pathExists st p")
      case True
      then have nl: "p \<notin> locked st" using Cons.prems Some by (auto simp: pathExists_def)
      let ?st' = "st\<lparr>files := files st - {p}\<rparr>"
      have r: "fs_remove p st = (Inr (), ?st')" using nl by (simp add: fs_remove_def)
      have "cleanup_loop ps ?st'
              = (Inr (), ?st'\<lparr>files := files ?st' - {p. Some p \<in> set ps \<and> p \<noteq> []}\<rparr>)"
        using Cons.prems by (intro Cons.IH) auto
      moreover have "files ?st' - {q. Some q \<in> set ps \<and> q \<noteq> []}
                   = files st - {q. Some q \<in> set (a # ps) \<and> q \<noteq> []}"
        using True Some by auto
      ultimately show ?thesis using True Some r by simp
    next
      case False
      have ih: "cleanup_loop ps st
                  = (Inr (), st\<lparr>files := files st - {p. Some p \<in> set ps \<and> p \<noteq> []}\<rparr>)"
        using Cons.prems by (intro Cons.IH) auto
      have "files st - {q. Some q \<in> set ps \<and> q \<noteq> []}
          = files st - {q. Some q \<in> set (a # ps) \<and> q \<noteq> []}"
        using False Some by (auto simp: pathExists_def)
      moreover have "cleanup_loop (a # ps) st = cleanup_loop ps st"
        using False Some by auto
      ultimately show ?thesis using ih by simp
    qed
  qed
qed

text \<open>
  C8, as the code has it. Cleanup never raises, on any list of paths and any filesystem;
  in particular a second call on what the first one left does not raise, and a path that
  does not exist is skipped. When no removal is refused, none of the listed files
  remains after it returns.
\<close>

theorem cleanup_never_raises:
  "fst (cleanup ps st) = Inr ()
   \<and> fst (cleanup ps (snd (cleanup ps st))) = Inr ()
   \<and> ((\<forall>p. Some p \<in> set ps \<and> p \<in> files st \<longrightarrow> p \<notin> locked st) \<longrightarrow>
        (\<forall>p. Some p \<in> set ps \<and> p \<noteq> [] \<longrightarrow> p \<notin> files (snd (cleanup ps st))))"
proof (intro conjI impI)
  show "fst (cleanup ps st) = Inr ()" by (rule cleanup_never_throws)
  show "fst (cleanup ps (snd (cleanup ps st))) = Inr ()" by (rule cleanup_never_throws)
next
  assume a: "\<forall>p. Some p \<in> set ps \<and> p \<in> files st \<longrightarrow> p \<notin> locked st"
  show "\<forall>p. Some p \<in> set ps \<and> p \<noteq> [] \<longrightarrow> p \<notin> files (snd (cleanup ps st))"
    by (simp add: cleanup_def cleanup_loop_unlocked [OF a])
qed

text \<open>
  A list with an existing file (twice), a \<^verbatim>\<open>null\<close> and a path that was never created.
\<close>

theorem cleanup_never_raises_witness:
  "fst (cleanup [Some ''a'', None, Some ''ghost'', Some ''a'']
          \<lparr>files = {''a'', ''keep''}, locked = {}\<rparr>) = Inr ()
   \<and> ''a'' \<notin> files (snd (cleanup [Some ''a'', None, Some ''ghost'', Some ''a'']
                             \<lparr>files = {''a'', ''keep''}, locked = {}\<rparr>))"
  using cleanup_never_raises
    [of "[Some ''a'', None, Some ''ghost'', Some ''a'']"
        "\<lparr>files = {''a'', ''keep''}, locked = {}\<rparr>"]
  by simp

text \<open>
  The claim as stated fails when a removal is refused: the refusal of \<open>a\<close> ends the loop,
  and the listed, existing and removable file \<open>b\<close> remains.
\<close>

theorem cleanup_leaves_file_counterexample:
  "fst (cleanup [Some ''a'', Some ''b''] \<lparr>files = {''a'', ''b''}, locked = {''a''}\<rparr>) = Inr ()
   \<and> ''b'' \<in> files (snd (cleanup [Some ''a'', Some ''b'']
                            \<lparr>files = {''a'', ''b''}, locked = {''a''}\<rparr>))
   \<and> ''b'' \<notin> locked \<lparr>files = {''a'', ''b''}, locked = {''a''}\<rparr>"
  by (simp add: cleanup_def pathExists_def fs_remove_def)

section \<open>Failure of one loop\<close>

text \<open>
  C3. When the audio loop fails and the video loop has completed, the pipeline fails and
  no merge is run, but the looped video file is still on disk afterwards: the
  \<^verbatim>\<open>catch\<close> block finds both path variables \<^verbatim>\<open>null\<close> (the rejected
  \<^verbatim>\<open>Promise.all\<close> never assigned them) and skips its cleanup.
\<close>

theorem failed_audio_loop_leaves_looped_video:
  "processMedia MediaProcessor_defaults
     \<lparr>videoDuration = Inr (Num 30),
      videoInfo = Inr \<lparr>width = 1920, height = 1080\<rparr>,
      audioDuration = Inr (Num 20),
      videoRun = Ended, audioRun = Errored False, mergeRun = Ended,
      audioRejectsFirst = False,
      loopedVideoName = ''temp/looped_video.mp4'',
      loopedAudioName = ''temp/looped_audio.wav'',
      mergedName = ''output/merged.mp4''\<rparr>
     ''temp/video.mp4'' ''temp/audio.wav'' 1
     \<lparr>files = {''temp/video.mp4'', ''temp/audio.wav''}, locked = {}\<rparr>
   = (Inl (Error ''ffmpeg exited with an error''),
      \<lparr>files = {''temp/looped_video.mp4'', ''temp/video.mp4'', ''temp/audio.wav''},
       locked = {}\<rparr>)"
  by (simp add: processMedia_def run_built_def run_def loopVideo_def loopAudio_def
        loops_def targetDuration_def Let_def ffmpeg_def Promise_all_def
        processMedia_catch_def truthy_def MediaProcessor_defaults_def binary64_numeral)

text \<open>Whenever the joint wait rejects, the \<^verbatim>\<open>catch\<close> block removes nothing.\<close>

lemma processMedia_catch_null: "processMedia_catch None None e st = (Inl e, st)"
  by (simp add: processMedia_catch_def truthy_def)

section \<open>Claiming a job\<close>

lemma select_waiting_cases:
  "select_waiting tbl = [] \<or> (\<exists>c. select_waiting tbl = [c])"
  by (cases "sort_key job_id (filter (\<lambda>j. status j = waiting_render \<and> final_video_url j = None) tbl)")
     (simp_all add: select_waiting_def)

lemma select_waiting_least:
  assumes "select_waiting tbl = [c]"
  shows "c \<in> set tbl \<and> status c = waiting_render \<and> final_video_url c = None
       \<and> (\<forall>j\<in>set tbl. status j = waiting_render \<and> final_video_url j = None
              \<longrightarrow> job_id c \<le> job_id j)"
proof -
  let ?xs = "filter (\<lambda>j. status j = waiting_render \<and> final_video_url j = None) tbl"
  let ?ys = "sort_key job_id ?xs"
  from assms obtain rest where ys: "?ys = c # rest"
    by (cases ?ys) (simp_all add: select_waiting_def)
  have "c \<in> set ?ys" using ys by simp
  then have cin: "c \<in> set ?xs" by simp
  have "sorted (map job_id ?ys)" by (rule sorted_sort_key)
  then have "\<forall>y\<in>set ?ys. job_id c \<le> job_id y" using ys by auto
  then have "\<forall>y\<in>set ?xs. job_id c \<le> job_id y" by simp
  with cin show ?thesis by auto
qed

lemma select_waiting_nonempty:
  assumes "j \<in> set tbl" "status j = waiting_render" "final_video_url j = None"
  shows "\<exists>c. select_waiting tbl = [c]"
proof -
  let ?xs = "filter (\<lambda>j. status j = waiting_render \<and> final_video_url j = None) tbl"
  have "j \<in> set (sort_key job_id ?xs)" using assms by simp
  then obtain c rest where "sort_key job_id ?xs = c # rest"
    by (cases "sort_key job_id ?xs") auto
  then show ?thesis by (simp add: select_waiting_def)
qed

lemma single_Nil: "single [] = \<lparr>resp_data = None, resp_error = Some ''PGRST116''\<rparr>"
  by (simp add: single_def)

lemma single_one: "single [r] = \<lparr>resp_data = Some r, resp_error = None\<rparr>"
  by (simp add: single_def)

lemma getAndClaimJob_no_candidate:
  assumes "select_waiting tbl = []"
  shows "getAndClaimJob env tbl = (Inr None, tbl)"
  using assms
  by (cases "fetch_fault env")
     (simp_all add: getAndClaimJob_def getAndClaimJob_try_def fetch_jobs_def)

lemma getAndClaimJob_candidate:
  assumes "fetch_fault env = no_fault" "update_fault env = no_fault" "select_waiting tbl = [c]"
  shows "getAndClaimJob env tbl =
           ((case resp_data (single (map (claim_row (now env)) (matched (job_id c) (others env tbl)))) of
               None \<Rightarrow> Inr None | Some u \<Rightarrow> Inr (Some u)),
            fst (update_claim (job_id c) (now env) (others env tbl)))"
  using assms
  by (auto simp: getAndClaimJob_def getAndClaimJob_try_def fetch_jobs_def update_job_def
        update_claim_def single_def split: list.splits option.splits)

text \<open>
  C1. With a store that answers both requests: when no row is waiting without a final
  artifact, the claim returns no job and writes nothing; otherwise the selected row is a
  waiting row without final artifact of least id, the write turns to \<^verbatim>\<open>rendering\<close>
  exactly the rows that have this id and are still waiting at write time (after what the
  other workers did), and when no row matches at write time the claim returns no job
  instead of raising. When exactly one row matches, the claim returns that row, claimed.
\<close>

theorem claim_selects_lowest_waiting_and_writes_conditionally:
  assumes "fetch_fault env = no_fault" and "update_fault env = no_fault"
  shows "(select_waiting tbl = [] \<longrightarrow> getAndClaimJob env tbl = (Inr None, tbl))
   \<and> ((\<exists>j\<in>set tbl. status j = waiting_render \<and> final_video_url j = None)
        \<longrightarrow> (\<exists>c. select_waiting tbl = [c]))
   \<and> (\<forall>c. select_waiting tbl = [c] \<longrightarrow>
         c \<in> set tbl \<and> status c = waiting_render \<and> final_video_url c = None
         \<and> (\<forall>j\<in>set tbl. status j = waiting_render \<and> final_video_url j = None
                \<longrightarrow> job_id c \<le> job_id j)
         \<and> snd (getAndClaimJob env tbl)
             = map (\<lambda>j. if job_id j = job_id c \<and> status j = waiting_render
                         then j\<lparr>status := rendering, updated_at := now env\<rparr> else j)
                   (others env tbl)
         \<and> (matched (job_id c) (others env tbl) = []
               \<longrightarrow> fst (getAndClaimJob env tbl) = Inr None)
         \<and> (\<forall>u. matched (job_id c) (others env tbl) = [u]
               \<longrightarrow> fst (getAndClaimJob env tbl)
                     = Inr (Some (u\<lparr>status := rendering, updated_at := now env\<rparr>))))"
proof (intro conjI allI impI)
  assume "select_waiting tbl = []"
  then show "getAndClaimJob env tbl = (Inr None, tbl)" by (rule getAndClaimJob_no_candidate)
next
  assume "\<exists>j\<in>set tbl. status j = waiting_render \<and> final_video_url j = None"
  then show "\<exists>c. select_waiting tbl = [c]" using select_waiting_nonempty by blast
next
  fix c assume c: "select_waiting tbl = [c]"
  note least = select_waiting_least [OF c]
  note g = getAndClaimJob_candidate [OF assms c]
  show "c \<in> set tbl" "status c = waiting_render" "final_video_url c = None"
    using least by simp_all
  show "\<forall>j\<in>set tbl. status j = waiting_render \<and> final_video_url j = None
                \<longrightarrow> job_id c \<le> job_id j"
    using least by simp
  show "snd (getAndClaimJob env tbl)
             = map (\<lambda>j. if job_id j = job_id c \<and> status j = waiting_render
                         then j\<lparr>status := rendering, updated_at := now env\<rparr> else j)
                   (others env tbl)"
    by (simp add: g update_claim_def claim_row_def)
  show "fst (getAndClaimJob env tbl) = Inr None" if "matched (job_id c) (others env tbl) = []"
    using that by (simp add: g single_Nil)
  show "fst (getAndClaimJob env tbl) = Inr (Some (u\<lparr>status := rendering, updated_at := now env\<rparr>))"
    if "matched (job_id c) (others env tbl) = [u]" for u
    using that by (simp add: g single_one claim_row_def)
qed

text \<open>
  A worker alone claims job 1 out of jobs 2, 0 (already rendered) and 1; a worker that
  lost the race for job 1 gets no job and changes nothing; an empty queue gives no job.
\<close>

theorem claim_selects_lowest_waiting_and_writes_conditionally_witness:
  "(let j1 = \<lparr>job_id = 1, status = waiting_render, final_video_url = None, updated_at = ''t0'',
              length_minutes = 1, channel_id = 7, input_video_url = ''https://v'',
              soundtrack_url = ''https://a''\<rparr>;
        j2 = j1\<lparr>job_id := 2\<rparr>;
        j0 = j1\<lparr>job_id := 0, status := rendered, final_video_url := Some ''https://out''\<rparr>;
        alone = \<lparr>fetch_fault = no_fault, update_fault = no_fault,
                 others = (\<lambda>t. t), now = ''t1''\<rparr>;
        raced = \<lparr>fetch_fault = no_fault, update_fault = no_fault,
                 others = map (\<lambda>j. if job_id j = 1 then j\<lparr>status := rendering\<rparr> else j),
                 now = ''t1''\<rparr>
    in getAndClaimJob alone [j2, j0, j1]
         = (Inr (Some (j1\<lparr>status := rendering, updated_at := ''t1''\<rparr>)),
            [j2, j0, j1\<lparr>status := rendering, updated_at := ''t1''\<rparr>])
       \<and> getAndClaimJob raced [j2, j0, j1]
         = (Inr None, [j2, j0, j1\<lparr>status := rendering\<rparr>])
       \<and> getAndClaimJob alone [j0] = (Inr None, [j0]))"
proof -
  define j1 where "j1 = \<lparr>job_id = 1, status = waiting_render, final_video_url = None,
              updated_at = ''t0'', length_minutes = 1, channel_id = 7,
              input_video_url = ''https://v'', soundtrack_url = ''https://a''\<rparr>"
  define j2 where "j2 = j1\<lparr>job_id := 2\<rparr>"
  define j0 where "j0 = j1\<lparr>job_id := 0, status := rendered, final_video_url := Some ''https://out''\<rparr>"
  define alone where "alone = \<lparr>fetch_fault = no_fault, update_fault = no_fault,
                 others = (\<lambda>t::job list. t), now = ''t1''\<rparr>"
  define raced where "raced = \<lparr>fetch_fault = no_fault, update_fault = no_fault,
                 others = map (\<lambda>j. if job_id j = 1 then j\<lparr>status := rendering\<rparr> else j),
                 now = ''t1''\<rparr>"
  have s: "select_waiting [j2, j0, j1] = [j1]"
    by (simp add: select_waiting_def j0_def j1_def j2_def)
  have s0: "select_waiting [j0] = []"
    by (simp add: select_waiting_def j0_def j1_def)
  have fa: "fetch_fault alone = no_fault" "update_fault alone = no_fault"
    by (simp_all add: alone_def)
  have fr: "fetch_fault raced = no_fault" "update_fault raced = no_fault"
    by (simp_all add: raced_def)
  have ma: "matched (job_id j1) (others alone [j2, j0, j1]) = [j1]"
    by (simp add: matched_def alone_def j0_def j1_def j2_def)
  have mr: "matched (job_id j1) (others raced [j2, j0, j1]) = []"
    by (simp add: matched_def raced_def j0_def j1_def j2_def)
  have a: "getAndClaimJob alone [j2, j0, j1]
         = (Inr (Some (j1\<lparr>status := rendering, updated_at := ''t1''\<rparr>)),
            [j2, j0, j1\<lparr>status := rendering, updated_at := ''t1''\<rparr>])"
    using claim_selects_lowest_waiting_and_writes_conditionally [OF fa, of "[j2, j0, j1]"] s ma
    by (cases "getAndClaimJob alone [j2, j0, j1]")
       (simp add: alone_def j0_def j1_def j2_def)
  have r: "getAndClaimJob raced [j2, j0, j1] = (Inr None, [j2, j0, j1\<lparr>status := rendering\<rparr>])"
    using claim_selects_lowest_waiting_and_writes_conditionally [OF fr, of "[j2, j0, j1]"] s mr
    by (cases "getAndClaimJob raced [j2, j0, j1]")
       (simp add: raced_def j0_def j1_def j2_def)
  have e: "getAndClaimJob alone [j0] = (Inr None, [j0])"
    using claim_selects_lowest_waiting_and_writes_conditionally [OF fa, of "[j0]"] s0
    by simp
  from a r e show ?thesis
    by (simp add: Let_def j0_def j1_def j2_def alone_def raced_def)
qed

lemma getAndClaimJob_returns: "\<exists>r. fst (getAndClaimJob env tbl) = Inr r"
  by (auto simp: getAndClaimJob_def split: prod.splits sum.splits)

lemma getAndClaimJob_fetch_fault:
  "fetch_fault env \<noteq> no_fault \<Longrightarrow> fst (getAndClaimJob env tbl) = Inr None"
  by (cases "fetch_fault env")
     (simp_all add: getAndClaimJob_def getAndClaimJob_try_def fetch_jobs_def)

lemma getAndClaimJob_update_fault:
  "update_fault env \<noteq> no_fault \<Longrightarrow> fst (getAndClaimJob env tbl) = Inr None"
  by (cases "update_fault env"; cases "fetch_fault env")
     (auto simp: getAndClaimJob_def getAndClaimJob_try_def fetch_jobs_def update_job_def
        split: list.splits option.splits)

lemma getAndClaimJob_zero_rows:
  assumes "select_waiting tbl = [c]" "matched (job_id c) (others env tbl) = []"
  shows "fst (getAndClaimJob env tbl) = Inr None"
  using assms
  by (cases "update_fault env"; cases "fetch_fault env")
     (auto simp: getAndClaimJob_def getAndClaimJob_try_def fetch_jobs_def update_job_def
        update_claim_def single_def split: list.splits option.splits)

text \<open>
  C10. \<open>getAndClaimJob\<close> always returns, and never throws: it returns no job when the
  fetch resolves with an error or throws, when there is no candidate row, when the
  update resolves with an error or throws, and when the conditional update matches no
  row.
\<close>

theorem getAndClaimJob_never_throws:
  "(\<exists>r. fst (getAndClaimJob env tbl) = Inr r)
   \<and> (fetch_fault env \<noteq> no_fault \<longrightarrow> fst (getAndClaimJob env tbl) = Inr None)
   \<and> (select_waiting tbl = [] \<longrightarrow> fst (getAndClaimJob env tbl) = Inr None)
   \<and> (update_fault env \<noteq> no_fault \<longrightarrow> fst (getAndClaimJob env tbl) = Inr None)
   \<and> (\<forall>c. select_waiting tbl = [c] \<and> matched (job_id c) (others env tbl) = []
          \<longrightarrow> fst (getAndClaimJob env tbl) = Inr None)"
  using getAndClaimJob_returns getAndClaimJob_fetch_fault getAndClaimJob_update_fault
    getAndClaimJob_zero_rows getAndClaimJob_no_candidate [of tbl env]
  by (intro conjI allI impI) auto

text \<open>One call for each failure mode.\<close>

theorem getAndClaimJob_never_throws_witness:
  "(let j1 = \<lparr>job_id = 1, status = waiting_render, final_video_url = None, updated_at = ''t0'',
              length_minutes = 1, channel_id = 7, input_video_url = ''https://v'',
              soundtrack_url = ''https://a''\<rparr>;
        env = \<lparr>fetch_fault = no_fault, update_fault = no_fault,
               others = (\<lambda>t. t), now = ''t1''\<rparr>
    in fst (getAndClaimJob (env\<lparr>fetch_fault := returns_error\<rparr>) [j1]) = Inr None
       \<and> fst (getAndClaimJob (env\<lparr>fetch_fault := throws\<rparr>) [j1]) = Inr None
       \<and> fst (getAndClaimJob env []) = Inr None
       \<and> fst (getAndClaimJob (env\<lparr>update_fault := returns_error\<rparr>) [j1]) = Inr None
       \<and> fst (getAndClaimJob (env\<lparr>update_fault := throws\<rparr>) [j1]) = Inr None
       \<and> fst (getAndClaimJob (env\<lparr>others := map (\<lambda>j. j\<lparr>status := rendering\<rparr>)\<rparr>) [j1])
           = Inr None)"
proof -
  define j1 where "j1 = \<lparr>job_id = 1, status = waiting_render, final_video_url = None,
              updated_at = ''t0'', length_minutes = 1, channel_id = 7,
              input_video_url = ''https://v'', soundtrack_url = ''https://a''\<rparr>"
  define env where "env = \<lparr>fetch_fault = no_fault, update_fault = no_fault,
                 others = (\<lambda>t::job list. t), now = ''t1''\<rparr>"
  have s: "select_waiting [j1] = [j1]" by (simp add: select_waiting_def j1_def)
  have s0: "select_waiting [] = []" by (simp add: select_waiting_def)
  have m: "matched (job_id j1) (others (env\<lparr>others := map (\<lambda>j. j\<lparr>status := rendering\<rparr>)\<rparr>) [j1]) = []"
    by (simp add: matched_def)
  have 1: "fst (getAndClaimJob (env\<lparr>fetch_fault := returns_error\<rparr>) [j1]) = Inr None"
    using getAndClaimJob_never_throws [of "env\<lparr>fetch_fault := returns_error\<rparr>" "[j1]"] by simp
  have 2: "fst (getAndClaimJob (env\<lparr>fetch_fault := throws\<rparr>) [j1]) = Inr None"
    using getAndClaimJob_never_throws [of "env\<lparr>fetch_fault := throws\<rparr>" "[j1]"] by simp
  have 3: "fst (getAndClaimJob env []) = Inr None"
    using getAndClaimJob_never_throws [of env "[]"] s0 by simp
  have 4: "fst (getAndClaimJob (env\<lparr>update_fault := returns_error\<rparr>) [j1]) = Inr None"
    using getAndClaimJob_never_throws [of "env\<lparr>update_fault := returns_error\<rparr>" "[j1]"] by simp
  have 5: "fst (getAndClaimJob (env\<lparr>update_fault := throws\<rparr>) [j1]) = Inr None"
    using getAndClaimJob_never_throws [of "env\<lparr>update_fault := throws\<rparr>" "[j1]"] by simp
  have 6: "fst (getAndClaimJob (env\<lparr>others := map (\<lambda>j. j\<lparr>status := rendering\<rparr>)\<rparr>) [j1]) = Inr None"
    using getAndClaimJob_never_throws [of "env\<lparr>others := map (\<lambda>j. j\<lparr>status := rendering\<rparr>)\<rparr>" "[j1]"] s m
    by simp
  from 1 2 3 4 5 6 show ?thesis by (simp add: Let_def j1_def env_def)
qed

section \<open>Resolving a preset\<close>

text \<open>
  C9. The name \<^verbatim>\<open>constructor\<close> is not a key of the registry, yet resolving it does
  not throw: the lookup finds the member inherited from \<^verbatim>\<open>Object.prototype\<close>, and
  the processors are created with their default settings.
\<close>

theorem inherited_key_is_not_rejected:
  "map_of getCompressionPresets ''constructor'' = None
   \<and> createWithPreset ''constructor'' = Inr factory_defaults
   \<and> withPreset ''constructor'' = Inr MediaProcessor_defaults"
  by (simp add: getCompressionPresets_def createWithPreset_def withPreset_def
        get_property_def Object_prototype_keys_def)

text \<open>
  Away from the inherited keys the resolution is as intended: a registered name gives its
  bundle, any other name throws.
\<close>

lemma registered_preset_resolves:
  assumes "map_of getCompressionPresets n = Some s"
  shows "withPreset n = Inr s \<and> createWithPreset n = Inr (create s)"
  using assms by (simp add: withPreset_def createWithPreset_def get_property_def)

lemma unknown_preset_throws:
  assumes "map_of getCompressionPresets n = None" "n \<notin> set Object_prototype_keys"
  shows "withPreset n = Inl (unknown_preset n)
       \<and> createWithPreset n = Inl (unknown_preset n)"
  using assms by (simp add: withPreset_def createWithPreset_def get_property_def)

section \<open>Failure of the publish step\<close>

lemma uploadAndCleanup_failure_keeps_disk:
  assumes "fst (uploadAndCleanup up p keep st) = Inl e"
  shows "snd (uploadAndCleanup up p keep st) = st"
  using assms
  by (auto simp: uploadAndCleanup_def cleanupLocalFile_def
        split: sum.splits if_splits prod.splits)

text \<open>
  C6, as the code has it. When the render has succeeded and the publish step throws,
  \<open>renderVideo\<close> throws the same error after marking the job failed (every row of the
  job is \<^verbatim>\<open>failed\<close> when the store is reachable), and the disk is as the render left
  it: the rendered artifact is not removed.
\<close>

theorem publish_failure_keeps_artifact:
  assumes "isValid env"
    and "downloadMediaFiles env (disk w) = (Inr (v, a), st1)"
    and "validateFile env st1 v = Inr ()"
    and "validateFile env st1 a = Inr ()"
    and "processMedia (settings env) (media env) v a (length_minutes job) st1 = (Inr outp, st2)"
    and "fst (uploadAndCleanup (uploader env) outp False st2) = Inl e"
  shows "renderVideo env job w
           = (Inl e, w\<lparr>disk := st2,
                       queue := snd (failJob (store_ok env) (clock env) (job_id job) (queue w))\<rparr>)
       \<and> (outp \<in> files st2 \<longrightarrow> outp \<in> files (disk (snd (renderVideo env job w))))
       \<and> (store_ok env \<longrightarrow>
            (\<forall>j\<in>set (queue (snd (renderVideo env job w))).
               job_id j = job_id job \<longrightarrow> status j = failed))"
proof -
  from assms(6) have u: "uploadAndCleanup (uploader env) outp False st2 = (Inl e, st2)"
    using uploadAndCleanup_failure_keeps_disk [OF assms(6)]
    by (cases "uploadAndCleanup (uploader env) outp False st2") simp
  have r: "renderVideo env job w
           = (Inl e, w\<lparr>disk := st2,
                       queue := snd (failJob (store_ok env) (clock env) (job_id job) (queue w))\<rparr>)"
    using assms(1-5) u by (simp add: renderVideo_def renderVideo_try_def)
  have f: "store_ok env \<longrightarrow>
            (\<forall>j\<in>set (snd (failJob (store_ok env) (clock env) (job_id job) (queue w))).
               job_id j = job_id job \<longrightarrow> status j = failed)"
    by (auto simp: failJob_def updateJobStatus_def)
  from r f show ?thesis by simp
qed

lemma render_example:
  "processMedia MediaProcessor_defaults
     \<lparr>videoDuration = Inr (Num 30),
      videoInfo = Inr \<lparr>width = 1920, height = 1080\<rparr>,
      audioDuration = Inr (Num 20),
      videoRun = Ended, audioRun = Ended, mergeRun = Ended,
      audioRejectsFirst = False,
      loopedVideoName = ''temp/looped_video.mp4'',
      loopedAudioName = ''temp/looped_audio.wav'',
      mergedName = ''output/merged.mp4''\<rparr>
     ''temp/video.mp4'' ''temp/audio.wav'' 1
     \<lparr>files = {''temp/video.mp4'', ''temp/audio.wav''}, locked = {}\<rparr>
   = (Inr ''output/merged.mp4'',
      \<lparr>files = {''output/merged.mp4'', ''temp/video.mp4'', ''temp/audio.wav''}, locked = {}\<rparr>)"
  by (simp add: processMedia_def run_built_def run_def loopVideo_def loopAudio_def
        loops_def targetDuration_def Let_def ffmpeg_def Promise_all_def
        processMedia_catch_def truthy_def MediaProcessor_defaults_def binary64_numeral
        mergeVideoAudio_def cleanup_def pathExists_def fs_remove_def) auto

text \<open>An upload that resolves but does not validate (empty object key).\<close>

theorem publish_failure_keeps_artifact_witness:
  "(let env = \<lparr>isValid = True,
               downloadMediaFiles = (\<lambda>st. (Inr (''temp/video.mp4'', ''temp/audio.wav''),
                  st\<lparr>files := {''temp/video.mp4'', ''temp/audio.wav''}\<rparr>)),
               validateFile = (\<lambda>st p. Inr ()),
               settings = MediaProcessor_defaults,
               media = \<lparr>videoDuration = Inr (Num 30),
                        videoInfo = Inr \<lparr>width = 1920, height = 1080\<rparr>,
                        audioDuration = Inr (Num 20),
                        videoRun = Ended, audioRun = Ended, mergeRun = Ended,
                        audioRejectsFirst = False,
                        loopedVideoName = ''temp/looped_video.mp4'',
                        loopedAudioName = ''temp/looped_audio.wav'',
                        mergedName = ''output/merged.mp4''\<rparr>,
               uploader = \<lparr>object_key = [],
                           publicBaseUrl = ''https://b2'',
                           upload_done = None\<rparr>,
               store_ok = True, clock = ''t1''\<rparr>;
        j = \<lparr>job_id = 1, status = rendering, final_video_url = None, updated_at = ''t0'',
             length_minutes = 1, channel_id = 7, input_video_url = ''https://v'',
             soundtrack_url = ''https://a''\<rparr>;
        r = renderVideo env j \<lparr>disk = \<lparr>files = {}, locked = {}\<rparr>, queue = [j]\<rparr>
    in fst r = Inl (Error ''Upload validation failed'')
       \<and> ''output/merged.mp4'' \<in> files (disk (snd r))
       \<and> (\<forall>x\<in>set (queue (snd r)). job_id x = 1 \<longrightarrow> status x = failed))"
proof -
  define env where "env = \<lparr>isValid = True,
               downloadMediaFiles = (\<lambda>st. (Inr (''temp/video.mp4'', ''temp/audio.wav''),
                  st\<lparr>files := {''temp/video.mp4'', ''temp/audio.wav''}\<rparr>)),
               validateFile = (\<lambda>st p. Inr ()),
               settings = MediaProcessor_defaults,
               media = \<lparr>videoDuration = Inr (Num 30),
                        videoInfo = Inr \<lparr>width = 1920, height = 1080\<rparr>,
                        audioDuration = Inr (Num 20),
                        videoRun = Ended, audioRun = Ended, mergeRun = Ended,
                        audioRejectsFirst = False,
                        loopedVideoName = ''temp/looped_video.mp4'',
                        loopedAudioName = ''temp/looped_audio.wav'',
                        mergedName = ''output/merged.mp4''\<rparr>,
               uploader = \<lparr>object_key = [],
                           publicBaseUrl = ''https://b2'',
                           upload_done = None\<rparr>,
               store_ok = True, clock = ''t1''\<rparr>"
  define j where "j = \<lparr>job_id = 1, status = rendering, final_video_url = None,
             updated_at = ''t0'', length_minutes = 1, channel_id = 7,
             input_video_url = ''https://v'', soundtrack_url = ''https://a''\<rparr>"
  define w where "w = \<lparr>disk = \<lparr>files = {}, locked = {}\<rparr>, queue = [j]\<rparr>"
  define st1 where "st1 = \<lparr>files = {''temp/video.mp4'', ''temp/audio.wav''}, locked = {}\<rparr>"
  define st2 where "st2 = \<lparr>files = {''output/merged.mp4'', ''temp/video.mp4'', ''temp/audio.wav''},
                            locked = {}\<rparr>"
  have h1: "isValid env" by (simp add: env_def)
  have h2: "downloadMediaFiles env (disk w) = (Inr (''temp/video.mp4'', ''temp/audio.wav''), st1)"
    by (simp add: env_def w_def st1_def)
  have h3: "validateFile env st1 ''temp/video.mp4'' = Inr ()" by (simp add: env_def)
  have h4: "validateFile env st1 ''temp/audio.wav'' = Inr ()" by (simp add: env_def)
  have h5: "processMedia (settings env) (media env) ''temp/video.mp4'' ''temp/audio.wav''
              (length_minutes j) st1 = (Inr ''output/merged.mp4'', st2)"
    using render_example by (simp add: env_def j_def st1_def st2_def)
  have h6: "fst (uploadAndCleanup (uploader env) ''output/merged.mp4'' False st2)
              = Inl (Error ''Upload validation failed'')"
    by (simp add: env_def uploadAndCleanup_def uploadFile_def validateUpload_def)
  have "fst (renderVideo env j w) = Inl (Error ''Upload validation failed'')
       \<and> ''output/merged.mp4'' \<in> files (disk (snd (renderVideo env j w)))
       \<and> (\<forall>x\<in>set (queue (snd (renderVideo env j w))). job_id x = 1 \<longrightarrow> status x = failed)"
    using publish_failure_keeps_artifact [OF h1 h2 h3 h4 h5 h6]
    by (simp add: st2_def env_def j_def)
  then show ?thesis by (simp add: Let_def env_def j_def w_def)
qed

text \<open>
  The claim as stated fails: the upload rejects after a successful render, the job is
  marked failed, and the rendered file is still on disk.
\<close>

theorem publish_failure_counterexample:
  "(let env = \<lparr>isValid = True,
               downloadMediaFiles = (\<lambda>st. (Inr (''temp/video.mp4'', ''temp/audio.wav''),
                  st\<lparr>files := {''temp/video.mp4'', ''temp/audio.wav''}\<rparr>)),
               validateFile = (\<lambda>st p. Inr ()),
               settings = MediaProcessor_defaults,
               media = \<lparr>videoDuration = Inr (Num 30),
                        videoInfo = Inr \<lparr>width = 1920, height = 1080\<rparr>,
                        audioDuration = Inr (Num 20),
                        videoRun = Ended, audioRun = Ended, mergeRun = Ended,
                        audioRejectsFirst = False,
                        loopedVideoName = ''temp/looped_video.mp4'',
                        loopedAudioName = ''temp/looped_audio.wav'',
                        mergedName = ''output/merged.mp4''\<rparr>,
               uploader = \<lparr>object_key = ''finals/rendered_version_1.mp4'',
                           publicBaseUrl = ''https://b2'',
                           upload_done = Some (Error ''upload failed'')\<rparr>,
               store_ok = True, clock = ''t1''\<rparr>;
        j = \<lparr>job_id = 1, status = rendering, final_video_url = None, updated_at = ''t0'',
             length_minutes = 1, channel_id = 7, input_video_url = ''https://v'',
             soundtrack_url = ''https://a''\<rparr>;
        r = renderVideo env j \<lparr>disk = \<lparr>files = {}, locked = {}\<rparr>, queue = [j]\<rparr>
    in fst r = Inl (Error ''upload failed'')
       \<and> map status (queue (snd r)) = [failed]
       \<and> ''output/merged.mp4'' \<in> files (disk (snd r)))"
  by (simp add: Let_def renderVideo_def renderVideo_try_def render_example
        uploadAndCleanup_def uploadFile_def failJob_def updateJobStatus_def)

end
